theory Spec2Isabelle
  imports Main "HOL-Library.Multiset"
begin

section \<open>Entity model (types.ts)\<close>

text \<open>
  The enums of \<^verbatim>\<open>types.ts\<close> are datatypes. A property declared optional
  (\<^verbatim>\<open>queueNumber?: string\<close>) is an \<open>optional\<close> value: the object has no such key
  (\<open>Absent\<close>), has the key with the value \<^verbatim>\<open>undefined\<close> (\<open>Undefined\<close>), or has it with
  a value. The difference between the first two decides what an object spread copies.

  Strings are lists of 8-bit characters, read as the code units U+0000 to U+00FF.
  A JavaScript \<^verbatim>\<open>number\<close> that holds a time stamp is an \<open>int\<close>. The age is an
  \<open>int option\<close>: \<open>None\<close> is the value that is not a number (\<^verbatim>\<open>NaN\<close> out of
  \<^verbatim>\<open>parseInt\<close>, or \<^verbatim>\<open>undefined\<close> behind the unchecked cast
  \<^verbatim>\<open>formData as Patient\<close>), for which every comparison \<^verbatim>\<open>age >= 75\<close> is false;
  the sex behind that cast is an \<open>option\<close> for the same reason.

  The record keeps the properties that the registry, the transitions and the queues read
  or write. The free-text history fields, the e-mail, the address, the specialty, the
  screening answers, the narrative summary and the follow-up schedule are left out: no
  operation below branches on them. The property \<^verbatim>\<open>id\<close> is the field
  \<open>ident\<close>, since \<open>id\<close> is the identity function of HOL.
\<close>

datatype TriageLevel = RED | ORANGE | GREEN

datatype PatientStatus =
  REGISTERED | TRIAGE | PHYSICIAN_QUEUE | ER_QUEUE | ADMITTED | DISCHARGED | STABILIZED_HOME

datatype Sex = MALE | FEMALE

datatype ReferralSource = NURSE | PHYSICIAN | DIRECT | REGISTRATION

datatype 'a optional = Absent | Undefined | Value 'a

record PathwayStep =
  step_status :: PatientStatus
  step_description :: string
  step_timestamp :: int
  step_actor :: string

record Vitals =
  bp :: string
  hr :: string
  temp :: string
  spo2 :: string

record Patient =
  ident :: string
  name :: string
  nationalId :: string
  phone :: string
  queueNumber :: "string optional"
  age :: "int option"
  sex :: "Sex option"
  isPregnant :: bool
  chiefComplaint :: string
  vitals :: Vitals
  triageLevel :: "TriageLevel option"
  aiJustification :: "string optional"
  status :: PatientStatus
  timestamp :: int
  referralSource :: "ReferralSource optional"
  physicianNotes :: "string optional"
  erNotes :: "string optional"
  pathway :: "PathwayStep list"

section \<open>Library functions of the host language\<close>

text \<open>
  \<^verbatim>\<open>Array.prototype.sort(compare)\<close> is a stable sort; the comparator returns the
  number whose sign the sort reads. For a comparator that is a consistent order the
  language fixes the result (sorted, with ties in their original order), and every stable
  sort computes it. The model is the stable insertion sort, which moves an element
  behind another one only when the comparator returns a positive number for the pair.
  For a comparator that is not a consistent order the language leaves the result to the
  engine, and the model is no account of it: the insertion sort and the merge sort of
  an engine may differ there. The comparator of the emergency queue is a consistent
  order on all patients, and the comparator of the physician queue is one on the
  patients of the levels ORANGE and GREEN; the sort is used on these only.
\<close>

fun insertBy :: "('a \<Rightarrow> 'a \<Rightarrow> int) \<Rightarrow> 'a \<Rightarrow> 'a list \<Rightarrow> 'a list" where
  "insertBy cmp x [] = [x]"
| "insertBy cmp x (y # ys) = (if cmp x y > 0 then y # insertBy cmp x ys else x # y # ys)"

definition sortBy :: "('a \<Rightarrow> 'a \<Rightarrow> int) \<Rightarrow> 'a list \<Rightarrow> 'a list" where
  "sortBy cmp xs = foldr (insertBy cmp) xs []"

text \<open>\<^verbatim>\<open>Array.prototype.find\<close>: the first element that satisfies the predicate.\<close>

definition findFirst :: "('a \<Rightarrow> bool) \<Rightarrow> 'a list \<Rightarrow> 'a option" where
  "findFirst P xs = List.find P xs"

text \<open>
  \<^verbatim>\<open>Array.prototype.findIndex\<close>: the index of the first element that satisfies the
  predicate; \<open>None\<close> is the result \<^verbatim>\<open>-1\<close>.
\<close>

fun findIndex :: "('a \<Rightarrow> bool) \<Rightarrow> 'a list \<Rightarrow> nat option" where
  "findIndex P [] = None"
| "findIndex P (x # xs) = (if P x then Some 0 else map_option Suc (findIndex P xs))"

text \<open>
  \<^verbatim>\<open>String.prototype.trim\<close> removes white space and line terminators at both ends;
  among the code units below U+0100 these are tab, line feed, vertical tab, form feed,
  carriage return, space and the no-break space.
\<close>

definition isWhiteSpace :: "char \<Rightarrow> bool" where
  "isWhiteSpace c = (c \<in> set [CHR 0x09, CHR 0x0A, CHR 0x0B, CHR 0x0C, CHR 0x0D, CHR 0x20, CHR 0xA0])"

definition trim :: "string \<Rightarrow> string" where
  "trim s = rev (dropWhile isWhiteSpace (rev (dropWhile isWhiteSpace s)))"

text \<open>
  \<^verbatim>\<open>String.prototype.toUpperCase\<close> on the letters a to z; every other character is
  left as it is. The language also maps the lower-case letters outside a to z, which
  the model does not: it is exact for tickets and queries written in ASCII, and the
  tickets that the registration issues are.
\<close>

definition upperChar :: "char \<Rightarrow> char" where
  "upperChar c =
     (case map_of (zip ''abcdefghijklmnopqrstuvwxyz'' ''ABCDEFGHIJKLMNOPQRSTUVWXYZ'') c of
        None \<Rightarrow> c | Some u \<Rightarrow> u)"

definition toUpperCase :: "string \<Rightarrow> string" where
  "toUpperCase s = map upperChar s"

definition isDigit :: "char \<Rightarrow> bool" where
  "isDigit c = (c \<in> set ''0123456789'')"

text \<open>\<^verbatim>\<open>s.replace(/\D/g, '')\<close>: the digits of \<open>s\<close>, in order.\<close>

definition digitsOnly :: "string \<Rightarrow> string" where
  "digitsOnly s = filter isDigit s"

definition digitValue :: "char \<Rightarrow> nat" where
  "digitValue c =
     (case map_of (zip ''0123456789'' [0, 1, 2, 3, 4, 5, 6, 7, 8, 9]) c of
        None \<Rightarrow> 0 | Some d \<Rightarrow> d)"

text \<open>
  \<^verbatim>\<open>parseInt(ds, 10)\<close> for a non-empty string of digits: the number the digits
  denote. The model is exact up to \<open>2 ^ 53\<close>, where a \<^verbatim>\<open>number\<close> holds every integer;
  above it the language rounds to the nearest \<^verbatim>\<open>number\<close>, so that two long digit
  strings may compare equal there which the model keeps apart.
\<close>

definition parseDigits :: "string \<Rightarrow> nat" where
  "parseDigits ds = foldl (\<lambda>n c. 10 * n + digitValue c) 0 ds"

text \<open>
  \<^verbatim>\<open>n.toString()\<close> for a natural number, and \<^verbatim>\<open>padStart\<close>. Every digit is
  printed; the language prints a number of \<open>10 ^ 21\<close> or more with an exponent, which
  concerns the text of the follow-up days in a step description only.
\<close>

fun showNat :: "nat \<Rightarrow> string" where
  "showNat n =
     (if n < 10 then [''0123456789'' ! n]
      else showNat (n div 10) @ [''0123456789'' ! (n mod 10)])"

declare showNat.simps [simp del]

definition showInt :: "int \<Rightarrow> string" where
  "showInt i = (if i < 0 then CHR ''-'' # showNat (nat (- i)) else showNat (nat i))"

definition padStart :: "nat \<Rightarrow> char \<Rightarrow> string \<Rightarrow> string" where
  "padStart n c s = replicate (n - length s) c @ s"

text \<open>Reading a property that may be missing gives \<^verbatim>\<open>undefined\<close>, here \<open>None\<close>.\<close>

definition readProp :: "'a optional \<Rightarrow> 'a option" where
  "readProp v = (case v of Value x \<Rightarrow> Some x | _ \<Rightarrow> None)"

definition showLevel :: "TriageLevel \<Rightarrow> string" where
  "showLevel l = (case l of RED \<Rightarrow> ''RED'' | ORANGE \<Rightarrow> ''ORANGE'' | GREEN \<Rightarrow> ''GREEN'')"

section \<open>The patient collection (App.tsx)\<close>

text \<open>
  The spread \<^verbatim>\<open>{ ...old, ...newPatient }\<close>: every key of \<^verbatim>\<open>newPatient\<close> wins, and
  a key it does not have keeps the value of \<^verbatim>\<open>old\<close>. The required properties are keys
  of every patient object that is built; an optional one may be absent.
\<close>

definition spreadProp :: "'a optional \<Rightarrow> 'a optional \<Rightarrow> 'a optional" where
  "spreadProp old new = (case new of Absent \<Rightarrow> old | _ \<Rightarrow> new)"

definition spreadPatient :: "Patient \<Rightarrow> Patient \<Rightarrow> Patient" where
  "spreadPatient old new =
     new\<lparr>queueNumber := spreadProp (queueNumber old) (queueNumber new),
         aiJustification := spreadProp (aiJustification old) (aiJustification new),
         referralSource := spreadProp (referralSource old) (referralSource new),
         physicianNotes := spreadProp (physicianNotes old) (physicianNotes new),
         erNotes := spreadProp (erNotes old) (erNotes new)\<rparr>"

definition addPatient :: "Patient \<Rightarrow> Patient list \<Rightarrow> Patient list" where
  "addPatient newPatient prev =
     (case findIndex (\<lambda>p. ident p = ident newPatient) prev of
        Some existingIndex \<Rightarrow>
          prev[existingIndex := spreadPatient (prev ! existingIndex) newPatient]
      | None \<Rightarrow> prev @ [newPatient])"

text \<open>
  \<^verbatim>\<open>updatePatient(id, updates)\<close>: the partial object \<^verbatim>\<open>updates\<close> is the function
  that overwrites, in a patient, the properties the object literal lists.
\<close>

definition updatePatient :: "string \<Rightarrow> (Patient \<Rightarrow> Patient) \<Rightarrow> Patient list \<Rightarrow> Patient list" where
  "updatePatient i updates prev = map (\<lambda>p. if ident p = i then updates p else p) prev"

section \<open>Physician platform (PhysicianPlatform.tsx)\<close>

text \<open>
  The component holds \<^verbatim>\<open>selectedPatientId\<close> (a string or \<^verbatim>\<open>null\<close>) and
  \<^verbatim>\<open>examNotes\<close>, and receives the physician queue as \<^verbatim>\<open>queue\<close>. Each handler is
  the function from these, the clock reading \<open>now\<close> and the patient collection to the
  collection that \<^verbatim>\<open>onUpdatePatient\<close> leaves; a handler that returns early leaves the
  collection as it was.
\<close>

definition selectedPatient :: "Patient list \<Rightarrow> string option \<Rightarrow> Patient option" where
  "selectedPatient queue selectedId =
     (case selectedId of None \<Rightarrow> None | Some i \<Rightarrow> findFirst (\<lambda>p. ident p = i) queue)"

definition handleTransferToER ::
  "int \<Rightarrow> Patient list \<Rightarrow> string option \<Rightarrow> string \<Rightarrow> Patient list \<Rightarrow> Patient list" where
  "handleTransferToER now queue selectedPatientId examNotes patients =
     (case selectedPatient queue selectedPatientId of
        None \<Rightarrow> patients
      | Some sp \<Rightarrow>
          if trim examNotes = [] then patients
          else
            let erStep = \<lparr>step_status = ER_QUEUE,
                          step_description = ''Escalated to ER by Physician. Reason: '' @ examNotes,
                          step_timestamp = now,
                          step_actor = ''Attending Physician''\<rparr>
            in updatePatient (ident sp)
                 (\<lambda>p. p\<lparr>status := ER_QUEUE,
                         referralSource := Value PHYSICIAN,
                         physicianNotes := Value examNotes,
                         triageLevel := Some RED,
                         pathway := pathway sp @ [erStep]\<rparr>)
                 patients)"

definition handleAdmit ::
  "int \<Rightarrow> Patient list \<Rightarrow> string option \<Rightarrow> string \<Rightarrow> Patient list \<Rightarrow> Patient list" where
  "handleAdmit now queue selectedPatientId examNotes patients =
     (case selectedPatient queue selectedPatientId of
        None \<Rightarrow> patients
      | Some sp \<Rightarrow>
          let admitStep = \<lparr>step_status = ADMITTED,
                           step_description =
                             ''Patient admitted to hospital ward. Notes: '' @ examNotes,
                           step_timestamp = now,
                           step_actor = ''Attending Physician''\<rparr>
          in updatePatient (ident sp)
               (\<lambda>p. p\<lparr>status := ADMITTED,
                       physicianNotes := Value examNotes,
                       pathway := pathway sp @ [admitStep]\<rparr>)
               patients)"

definition finalizeDischarge ::
  "int \<Rightarrow> Patient list \<Rightarrow> string option \<Rightarrow> string \<Rightarrow> int \<Rightarrow> bool \<Rightarrow> Patient list
   \<Rightarrow> Patient list" where
  "finalizeDischarge now queue selectedPatientId examNotes followUpDays needsFollowUp patients =
     (case selectedPatient queue selectedPatientId of
        None \<Rightarrow> patients
      | Some sp \<Rightarrow>
          let description =
                (if needsFollowUp
                 then ''Patient discharged home. Follow-up scheduled in '' @ showInt followUpDays
                        @ '' days. Instructions: '' @ examNotes
                 else ''Patient discharged home. No follow-up required. Instructions: ''
                        @ examNotes);
              dischargeStep = \<lparr>step_status = DISCHARGED,
                               step_description = description,
                               step_timestamp = now,
                               step_actor = ''Attending Physician''\<rparr>
          in updatePatient (ident sp)
               (\<lambda>p. p\<lparr>status := DISCHARGED,
                       physicianNotes := Value examNotes,
                       pathway := pathway sp @ [dischargeStep]\<rparr>)
               patients)"

section \<open>Emergency platform (ERDoctorPlatform.tsx)\<close>

text \<open>
  \<^verbatim>\<open>handleDisposition(status)\<close> reads the clock twice: \<open>nowStep\<close> is the time stamp of
  the pathway step, \<open>nowRecord\<close> the one written to the patient.
\<close>

definition handleDisposition ::
  "int \<Rightarrow> int \<Rightarrow> Patient list \<Rightarrow> string option \<Rightarrow> string \<Rightarrow> PatientStatus \<Rightarrow> Patient list
   \<Rightarrow> Patient list" where
  "handleDisposition nowStep nowRecord queue selectedId notes st patients =
     (case selectedPatient queue selectedId of
        None \<Rightarrow> patients
      | Some sp \<Rightarrow>
          if st = PHYSICIAN_QUEUE \<and> trim notes = [] then patients
          else
            let description =
                  (if st = ADMITTED
                   then ''Patient hospitalized after stabilization. ER Notes: '' @ notes
                   else if st = STABILIZED_HOME
                   then ''Patient stabilized and discharged home. ER Notes: '' @ notes
                   else ''Patient returned to Physician queue for clinic follow-up. ''
                          @ ''Stabilization updates: '' @ notes);
                dispositionStep = \<lparr>step_status = st,
                                   step_description = description,
                                   step_timestamp = nowStep,
                                   step_actor = ''ER Physician''\<rparr>
            in updatePatient (ident sp)
                 (\<lambda>p. let q = p\<lparr>status := st,
                                  erNotes := Value notes,
                                  timestamp := nowRecord,
                                  pathway := pathway sp @ [dispositionStep]\<rparr>
                      in if st = PHYSICIAN_QUEUE then q\<lparr>triageLevel := Some ORANGE\<rparr> else q)
                 patients)"

section \<open>Registration platform (RegistrationPlatform.tsx)\<close>

text \<open>
  The form of the registration desk. The age is the text of the input field; the
  e-mail and the address are left out as in the patient record.
\<close>

datatype Specialty = INTERNAL_MEDICINE | SURGERY | OBS_GYN | PEDIATRICS

record RegistrationForm =
  r_name :: string
  r_nationalId :: string
  r_phone :: string
  r_age :: string
  r_sex :: Sex
  r_specialty :: Specialty

definition isTerminal :: "PatientStatus \<Rightarrow> bool" where
  "isTerminal st = (st = DISCHARGED \<or> st = STABILIZED_HOME)"

definition activeSession :: "RegistrationForm \<Rightarrow> Patient list \<Rightarrow> Patient option" where
  "activeSession formData patients =
     (if r_nationalId formData = [] \<or> length (r_nationalId formData) < 14 then None
      else findFirst
             (\<lambda>p. nationalId p = r_nationalId formData
                  \<and> status p \<noteq> DISCHARGED \<and> status p \<noteq> STABILIZED_HOME)
             patients)"

definition isFormValid :: "RegistrationForm \<Rightarrow> Patient list \<Rightarrow> bool" where
  "isFormValid formData patients =
     (length (trim (r_name formData)) > 0
      \<and> length (trim (r_nationalId formData)) = 14
      \<and> length (trim (r_phone formData)) > 7
      \<and> r_age formData \<noteq> []
      \<and> activeSession formData patients = None)"

text \<open>\<^verbatim>\<open>formData.specialty.replace('_', ' ')\<close>, for each specialty.\<close>

definition specialtyText :: "Specialty \<Rightarrow> string" where
  "specialtyText sp =
     (case sp of INTERNAL_MEDICINE \<Rightarrow> ''INTERNAL MEDICINE'' | SURGERY \<Rightarrow> ''SURGERY''
      | OBS_GYN \<Rightarrow> ''OBS GYN'' | PEDIATRICS \<Rightarrow> ''PEDIATRICS'')"

text \<open>
  \<^verbatim>\<open>handleRegister\<close>. What the handler takes from its surroundings is a parameter:
  \<open>toDateString\<close> gives the local calendar day of a time stamp, \<open>parseInt\<close> is the
  library function (\<open>None\<close> for \<^verbatim>\<open>NaN\<close>), \<open>today\<close>, \<open>nowRecord\<close> and \<open>nowStep\<close> are
  the three readings of the clock, \<open>rnd\<close> is the text
  \<^verbatim>\<open>Math.random().toString(36).substr(2, 6).toUpperCase()\<close>, and \<open>selectedExisting\<close>
  is the archived record the clerk selected, if any. The result is the collection that
  \<^verbatim>\<open>onRegister\<close> (which is \<^verbatim>\<open>addPatient\<close>) leaves, with the ticket and the record
  number that were assigned; \<open>None\<close> when the handler returned early.
\<close>

definition newEntry ::
  "(int \<Rightarrow> string) \<Rightarrow> (string \<Rightarrow> int option) \<Rightarrow> int \<Rightarrow> int \<Rightarrow> int \<Rightarrow> string
   \<Rightarrow> Patient option \<Rightarrow> RegistrationForm \<Rightarrow> Patient list \<Rightarrow> Patient" where
  "newEntry toDateString parseInt today nowRecord nowStep rnd selectedExisting formData patients =
     (let todayPatients =
            filter (\<lambda>p. toDateString (timestamp p) = toDateString today) patients;
          nextNum = padStart 3 (CHR ''0'') (showNat (length todayPatients + 1));
          queueNumber = ''Q-'' @ nextNum;
          patientId =
            (case selectedExisting of
               None \<Rightarrow> ''MRN-'' @ rnd
             | Some e \<Rightarrow> if ident e = [] then ''MRN-'' @ rnd else ident e)
      in \<lparr>ident = patientId,
          name = r_name formData,
          nationalId = r_nationalId formData,
          phone = r_phone formData,
          queueNumber = Value queueNumber,
          age = parseInt (r_age formData),
          sex = Some (r_sex formData),
          isPregnant = False,
          chiefComplaint = [],
          vitals = \<lparr>bp = [], hr = [], temp = [], spo2 = []\<rparr>,
          triageLevel = None,
          aiJustification = Absent,
          status = REGISTERED,
          timestamp = nowRecord,
          referralSource = Value REGISTRATION,
          physicianNotes = Absent,
          erNotes = Absent,
          pathway =
            [\<lparr>step_status = REGISTERED,
              step_description = ''Patient registered for '' @ specialtyText (r_specialty formData)
                                 @ '' and issued queue ticket.'',
              step_timestamp = nowStep,
              step_actor = ''Registration Clerk''\<rparr>]\<rparr>)"

definition handleRegister ::
  "(int \<Rightarrow> string) \<Rightarrow> (string \<Rightarrow> int option) \<Rightarrow> int \<Rightarrow> int \<Rightarrow> int \<Rightarrow> string
   \<Rightarrow> Patient option \<Rightarrow> RegistrationForm \<Rightarrow> Patient list
   \<Rightarrow> Patient list \<times> (string optional \<times> string) option" where
  "handleRegister toDateString parseInt today nowRecord nowStep rnd selectedExisting formData patients =
     (if \<not> isFormValid formData patients then (patients, None)
      else
        let e = newEntry toDateString parseInt today nowRecord nowStep rnd selectedExisting
                  formData patients
        in (addPatient e patients, Some (queueNumber e, ident e)))"

section \<open>Classifier client (geminiService.ts)\<close>

text \<open>
  \<^verbatim>\<open>getAITriage\<close> awaits the classifier and parses the text of its response. The
  response is a parameter: \<open>None\<close> when the call \<^verbatim>\<open>generateContent\<close> throws, otherwise
  the property \<^verbatim>\<open>text\<close> of the response (\<open>None\<close> for \<^verbatim>\<open>undefined\<close>). The library
  function \<^verbatim>\<open>JSON.parse\<close> is a parameter too: it throws (\<open>None\<close>) or returns an object, of
  which the model keeps the two properties that are read later, each possibly missing.
  The awaited call is outside the \<^verbatim>\<open>try\<close> block, so its exception leaves the function;
  the exception of \<^verbatim>\<open>JSON.parse\<close> is caught.
\<close>

record AITriage =
  level :: "TriageLevel option"
  justification :: "string option"

datatype ServiceError = GenerateContentFailed

text \<open>\<^verbatim>\<open>response.text?.trim() || '{}'\<close>\<close>

definition jsonStrOf :: "string option \<Rightarrow> string" where
  "jsonStrOf body =
     (case body of None \<Rightarrow> ''{}'' | Some t \<Rightarrow> if trim t = [] then ''{}'' else trim t)"

text \<open>The object that the \<^verbatim>\<open>catch\<close> block returns.\<close>

definition fallbackTriage :: AITriage where
  "fallbackTriage =
     \<lparr>level = Some GREEN,
      justification = Some ''System error: Using default stable classification.''\<rparr>"

definition getAITriage ::
  "(string \<Rightarrow> AITriage option) \<Rightarrow> string option option \<Rightarrow> ServiceError + AITriage" where
  "getAITriage jsonParse response =
     (case response of
        None \<Rightarrow> Inl GenerateContentFailed
      | Some body \<Rightarrow>
          (case jsonParse (jsonStrOf body) of
             Some parsed \<Rightarrow> Inr parsed
           | None \<Rightarrow> Inr fallbackTriage))"

section \<open>Nurse platform (NursePlatform.tsx)\<close>

text \<open>
  The intake form is a \<^verbatim>\<open>Partial<Patient>\<close>: its identifier, age, sex and pregnancy
  flag may be \<^verbatim>\<open>undefined\<close>.
\<close>

record IntakeForm =
  f_id :: "string option"
  f_name :: string
  f_age :: "int option"
  f_sex :: "Sex option"
  f_isPregnant :: "bool option"
  f_nationalId :: string
  f_phone :: string
  f_queueNumber :: "string option"
  f_chiefComplaint :: string
  f_vitals :: Vitals
  f_pathway :: "PathwayStep list"

definition initialForm :: IntakeForm where
  "initialForm =
     \<lparr>f_id = None, f_name = [], f_age = None, f_sex = None, f_isPregnant = None,
      f_nationalId = [], f_phone = [], f_queueNumber = Some [], f_chiefComplaint = [],
      f_vitals = \<lparr>bp = [], hr = [], temp = [], spo2 = []\<rparr>, f_pathway = []\<rparr>"

text \<open>
  What \<^verbatim>\<open>handleQueueSearch\<close> leaves in the component: nothing (the input is blank), the
  error \<^verbatim>\<open>NOT_FOUND\<close> with its message, the error \<^verbatim>\<open>ALREADY_PROCESSED\<close> with its
  message and the \<^verbatim>\<open>processedInfo\<close> (name and status), or the intake form of the
  patient that was found, with the view \<^verbatim>\<open>INTAKE\<close>.
\<close>

datatype SearchResult =
  NO_INPUT
  | NOT_FOUND string
  | ALREADY_PROCESSED string string PatientStatus
  | INTAKE IntakeForm

definition ticketMatches :: "string \<Rightarrow> Patient \<Rightarrow> bool" where
  "ticketMatches input p =
     (let pQueue = (case readProp (queueNumber p) of
                      None \<Rightarrow> []
                    | Some q \<Rightarrow> toUpperCase q)
      in if pQueue = input then True
         else
           let pDigits = digitsOnly pQueue;
               inputDigits = digitsOnly input
           in if pDigits \<noteq> [] \<and> inputDigits \<noteq> [] \<and> length inputDigits > 0
              then parseDigits pDigits = parseDigits inputDigits
              else False)"

definition showQueueNumber :: "string optional \<Rightarrow> string" where
  "showQueueNumber q = (case readProp q of None \<Rightarrow> ''undefined'' | Some t \<Rightarrow> t)"

definition handleQueueSearch :: "string \<Rightarrow> Patient list \<Rightarrow> SearchResult" where
  "handleQueueSearch queueInput patients =
     (let input = toUpperCase (trim queueInput)
      in if input = [] then NO_INPUT
         else
           case findFirst (ticketMatches input) patients of
             None \<Rightarrow> NOT_FOUND ''No patient found with that ticket number in the system.''
           | Some foundPatient \<Rightarrow>
               if status foundPatient = REGISTERED
               then INTAKE
                 \<lparr>f_id = Some (ident foundPatient),
                  f_name = name foundPatient,
                  f_age = age foundPatient,
                  f_sex = sex foundPatient,
                  f_isPregnant = (if sex foundPatient = Some FEMALE then None else Some False),
                  f_nationalId = nationalId foundPatient,
                  f_phone = phone foundPatient,
                  f_queueNumber = readProp (queueNumber foundPatient),
                  f_chiefComplaint = [],
                  f_vitals = \<lparr>bp = [], hr = [], temp = [], spo2 = []\<rparr>,
                  f_pathway = pathway foundPatient\<rparr>
               else ALREADY_PROCESSED
                      (''Patient '' @ [CHR 0x22] @ name foundPatient @ [CHR 0x22] @ '' (Ticket ''
                         @ showQueueNumber (queueNumber foundPatient)
                         @ '') has already been triaged.'')
                      (name foundPatient) (status foundPatient))"

text \<open>
  \<^verbatim>\<open>handleInputChange(field, value)\<close>: the pair of a field and its new value is one
  constructor per field of the form that the model keeps.
\<close>

datatype FieldChange =
  Set_name string
  | Set_age "int option"
  | Set_sex "Sex option"
  | Set_isPregnant "bool option"
  | Set_chiefComplaint string

definition setField :: "FieldChange \<Rightarrow> IntakeForm \<Rightarrow> IntakeForm" where
  "setField c prev =
     (case c of
        Set_name v \<Rightarrow> prev\<lparr>f_name := v\<rparr>
      | Set_age v \<Rightarrow> prev\<lparr>f_age := v\<rparr>
      | Set_sex v \<Rightarrow> prev\<lparr>f_sex := v\<rparr>
      | Set_isPregnant v \<Rightarrow> prev\<lparr>f_isPregnant := v\<rparr>
      | Set_chiefComplaint v \<Rightarrow> prev\<lparr>f_chiefComplaint := v\<rparr>)"

definition handleInputChange :: "FieldChange \<Rightarrow> IntakeForm \<Rightarrow> IntakeForm" where
  "handleInputChange c prev =
     (let updates = setField c prev
      in if c = Set_sex (Some MALE) then updates\<lparr>f_isPregnant := Some False\<rparr> else updates)"

definition isIntakeValid :: "IntakeForm \<Rightarrow> bool" where
  "isIntakeValid formData =
     (let v = f_vitals formData;
          vitalsExist = (bp v \<noteq> [] \<and> hr v \<noteq> [] \<and> temp v \<noteq> [] \<and> spo2 v \<noteq> []);
          ageValid = (case f_age formData of None \<Rightarrow> False | Some a \<Rightarrow> a > 0);
          pregnancyChecked =
            (if f_sex formData = Some FEMALE then f_isPregnant formData \<noteq> None else True)
      in f_name formData \<noteq> [] \<and> ageValid \<and> f_sex formData \<noteq> None
         \<and> f_chiefComplaint formData \<noteq> [] \<and> vitalsExist \<and> pregnancyChecked)"

text \<open>
  \<^verbatim>\<open>runAITriage\<close>: the state \<^verbatim>\<open>aiTriage\<close> after the handler, or the exception that
  leaves it when the classifier call throws.
\<close>

definition runAITriage ::
  "(string \<Rightarrow> AITriage option) \<Rightarrow> string option option \<Rightarrow> IntakeForm \<Rightarrow> AITriage option
   \<Rightarrow> ServiceError + AITriage option" where
  "runAITriage jsonParse response formData aiTriage =
     (if \<not> isIntakeValid formData then Inr aiTriage
      else case getAITriage jsonParse response of
             Inl e \<Rightarrow> Inl e
           | Inr result \<Rightarrow> Inr (Some result))"

definition triageStatus :: "AITriage option \<Rightarrow> PatientStatus" where
  "triageStatus aiTriage =
     (if (case aiTriage of None \<Rightarrow> None | Some t \<Rightarrow> level t) = Some RED
      then ER_QUEUE else PHYSICIAN_QUEUE)"

definition showOptLevel :: "AITriage option \<Rightarrow> string" where
  "showOptLevel aiTriage =
     (case (case aiTriage of None \<Rightarrow> None | Some t \<Rightarrow> level t) of
        None \<Rightarrow> ''undefined'' | Some l \<Rightarrow> showLevel l)"

text \<open>
  \<^verbatim>\<open>finalizePatient\<close> builds \<^verbatim>\<open>finalPatient\<close> and hands it to \<^verbatim>\<open>onAddPatient\<close>,
  which is \<^verbatim>\<open>addPatient\<close>. \<open>nowStep\<close> and \<open>nowRecord\<close> are the two readings of the
  clock and \<open>rnd\<close> is the random text of a new record number. An operand of
  \<^verbatim>\<open>||\<close> that is \<^verbatim>\<open>undefined\<close>, \<^verbatim>\<open>false\<close> or the empty string gives way to the
  right-hand side.
\<close>

definition finalPatient ::
  "int \<Rightarrow> int \<Rightarrow> string \<Rightarrow> IntakeForm \<Rightarrow> AITriage option \<Rightarrow> Patient" where
  "finalPatient nowStep nowRecord rnd formData aiTriage =
     (let st = triageStatus aiTriage;
          triageStep =
            \<lparr>step_status = st,
             step_description = ''Triage completed. Category: '' @ showOptLevel aiTriage
                                @ ''. Complaint: '' @ f_chiefComplaint formData,
             step_timestamp = nowStep,
             step_actor = ''Triage Nurse''\<rparr>
      in \<lparr>ident = (case f_id formData of
                     None \<Rightarrow> ''MRN-'' @ rnd
                   | Some i \<Rightarrow> if i = [] then ''MRN-'' @ rnd else i),
          name = f_name formData,
          nationalId = (if f_nationalId formData = [] then ''PENDING''
                        else f_nationalId formData),
          phone = (if f_phone formData = [] then ''PENDING'' else f_phone formData),
          queueNumber = (case f_queueNumber formData of
                           None \<Rightarrow> Undefined | Some q \<Rightarrow> Value q),
          age = f_age formData,
          sex = f_sex formData,
          isPregnant = (case f_isPregnant formData of None \<Rightarrow> False | Some b \<Rightarrow> b),
          chiefComplaint = f_chiefComplaint formData,
          vitals = f_vitals formData,
          triageLevel = Some (case (case aiTriage of None \<Rightarrow> None | Some t \<Rightarrow> level t) of
                                None \<Rightarrow> GREEN | Some l \<Rightarrow> l),
          aiJustification = (case (case aiTriage of None \<Rightarrow> None | Some t \<Rightarrow> justification t) of
                               None \<Rightarrow> Undefined | Some j \<Rightarrow> Value j),
          status = st,
          timestamp = nowRecord,
          referralSource = Value NURSE,
          physicianNotes = Absent,
          erNotes = Absent,
          pathway = f_pathway formData @ [triageStep]\<rparr>)"

definition finalizePatient ::
  "int \<Rightarrow> int \<Rightarrow> string \<Rightarrow> IntakeForm \<Rightarrow> AITriage option \<Rightarrow> Patient list \<Rightarrow> Patient list" where
  "finalizePatient nowStep nowRecord rnd formData aiTriage patients =
     addPatient (finalPatient nowStep nowRecord rnd formData aiTriage) patients"

section \<open>Queue builder (App.tsx)\<close>

definition isElderly :: "Patient \<Rightarrow> bool" where
  "isElderly p = (case age p of None \<Rightarrow> False | Some n \<Rightarrow> 75 \<le> n)"

text \<open>The comparator of \<^verbatim>\<open>physicianQueue\<close>, branch by branch.\<close>

definition physicianCompare :: "Patient \<Rightarrow> Patient \<Rightarrow> int" where
  "physicianCompare a b =
     (if triageLevel a = Some ORANGE \<and> triageLevel b = Some GREEN then - 1
      else if triageLevel a = Some GREEN \<and> triageLevel b = Some ORANGE then 1
      else if triageLevel a = Some GREEN \<and> triageLevel b = Some GREEN
              \<and> isElderly a \<and> \<not> isElderly b then - 1
      else if triageLevel a = Some GREEN \<and> triageLevel b = Some GREEN
              \<and> \<not> isElderly a \<and> isElderly b then 1
      else if triageLevel a = Some GREEN \<and> triageLevel b = Some GREEN
              \<and> isPregnant a \<and> \<not> isPregnant b then - 1
      else if triageLevel a = Some GREEN \<and> triageLevel b = Some GREEN
              \<and> \<not> isPregnant a \<and> isPregnant b then 1
      else timestamp a - timestamp b)"

definition physicianQueue :: "Patient list \<Rightarrow> Patient list" where
  "physicianQueue patients =
     sortBy physicianCompare (filter (\<lambda>p. status p = PHYSICIAN_QUEUE) patients)"

definition erCompare :: "Patient \<Rightarrow> Patient \<Rightarrow> int" where
  "erCompare a b =
     (if triageLevel a = Some RED \<and> triageLevel b \<noteq> Some RED then - 1
      else if triageLevel b = Some RED \<and> triageLevel a \<noteq> Some RED then 1
      else timestamp a - timestamp b)"

definition erQueue :: "Patient list \<Rightarrow> Patient list" where
  "erQueue patients = sortBy erCompare (filter (\<lambda>p. status p = ER_QUEUE) patients)"

text \<open>
  The order the emergency queue is specified to have: a RED patient stands before a
  patient of any other level, and two patients that are both RED or both not RED stand
  in ascending order of their time stamps.
\<close>

definition erBefore :: "Patient \<Rightarrow> Patient \<Rightarrow> bool" where
  "erBefore a b =
     ((triageLevel a = Some RED \<and> triageLevel b \<noteq> Some RED)
      \<or> ((triageLevel a = Some RED) = (triageLevel b = Some RED)
          \<and> timestamp a \<le> timestamp b))"

text \<open>
  The order the physician queue is specified to have: ORANGE before GREEN; between two
  GREEN patients the elderly one first, then at equal elderliness the pregnant one
  first, then the earlier time stamp; between two ORANGE patients the earlier time
  stamp alone.
\<close>

definition physicianBefore :: "Patient \<Rightarrow> Patient \<Rightarrow> bool" where
  "physicianBefore a b =
     ((triageLevel a = Some ORANGE \<and> triageLevel b = Some GREEN)
      \<or> (triageLevel a = Some ORANGE \<and> triageLevel b = Some ORANGE
          \<and> timestamp a \<le> timestamp b)
      \<or> (triageLevel a = Some GREEN \<and> triageLevel b = Some GREEN
          \<and> ((isElderly a \<and> \<not> isElderly b)
              \<or> (isElderly a = isElderly b
                  \<and> ((isPregnant a \<and> \<not> isPregnant b)
                      \<or> (isPregnant a = isPregnant b
                          \<and> timestamp a \<le> timestamp b))))))"

definition twoTier :: "Patient \<Rightarrow> bool" where
  "twoTier p = (triageLevel p = Some ORANGE \<or> triageLevel p = Some GREEN)"

text \<open>A patient record with the given queue attributes, the other fields empty.\<close>

definition mkPatient ::
  "string \<Rightarrow> PatientStatus \<Rightarrow> TriageLevel option \<Rightarrow> int \<Rightarrow> bool \<Rightarrow> int \<Rightarrow> Patient" where
  "mkPatient i st lv a pr ts =
     \<lparr>ident = i, name = [], nationalId = [], phone = [], queueNumber = Absent,
      age = Some a, sex = None, isPregnant = pr, chiefComplaint = [],
      vitals = \<lparr>bp = [], hr = [], temp = [], spo2 = []\<rparr>, triageLevel = lv,
      aiJustification = Absent, status = st, timestamp = ts, referralSource = Absent,
      physicianNotes = Absent, erNotes = Absent, pathway = []\<rparr>"

section \<open>The application as a state machine\<close>

text \<open>
  The collection starts empty (\<^verbatim>\<open>useState<Patient[]>([])\<close>) and is written by
  \<^verbatim>\<open>addPatient\<close> and \<^verbatim>\<open>updatePatient\<close> only, which the four platforms call from
  the handlers above. An event is one such call with what the user and the clock supply:
  a registration; an intake, which is the ticket search, the changes of the form and the
  finalization; and the handlers of the physician and of the emergency physician, which
  receive the queues computed from the collection. The platforms are mounted one at a
  time, so the form of one platform does not outlive an event of another. The summary
  generator writes the narrative summary only, which the patient record here leaves out.
  An event carries any selection, notes and target status, also those the screens do
  not offer, so what holds after every sequence of events holds in the application.
  \<open>run\<close> is the collection after a sequence of events.
\<close>

datatype Event =
  Register int int int string "Patient option" RegistrationForm
  | Intake string "FieldChange list" "AITriage option" int int string
  | TransferToER int "string option" string
  | Admit int "string option" string
  | Discharge int "string option" string int bool
  | Disposition int int "string option" string PatientStatus

definition step ::
  "(int \<Rightarrow> string) \<Rightarrow> (string \<Rightarrow> int option) \<Rightarrow> Event \<Rightarrow> Patient list \<Rightarrow> Patient list" where
  "step toDateString parseInt ev patients =
     (case ev of
        Register today nowRecord nowStep rnd selectedExisting formData \<Rightarrow>
          fst (handleRegister toDateString parseInt today nowRecord nowStep rnd
                 selectedExisting formData patients)
      | Intake queueInput changes aiTriage nowStep nowRecord rnd \<Rightarrow>
          (case handleQueueSearch queueInput patients of
             INTAKE formData \<Rightarrow>
               finalizePatient nowStep nowRecord rnd
                 (fold handleInputChange changes formData) aiTriage patients
           | _ \<Rightarrow> patients)
      | TransferToER now selectedId notes \<Rightarrow>
          handleTransferToER now (physicianQueue patients) selectedId notes patients
      | Admit now selectedId notes \<Rightarrow>
          handleAdmit now (physicianQueue patients) selectedId notes patients
      | Discharge now selectedId notes followUpDays needsFollowUp \<Rightarrow>
          finalizeDischarge now (physicianQueue patients) selectedId notes followUpDays
            needsFollowUp patients
      | Disposition nowStep nowRecord selectedId notes st \<Rightarrow>
          handleDisposition nowStep nowRecord (erQueue patients) selectedId notes st patients)"

definition run ::
  "(int \<Rightarrow> string) \<Rightarrow> (string \<Rightarrow> int option) \<Rightarrow> Event list \<Rightarrow> Patient list" where
  "run toDateString parseInt evs = fold (step toDateString parseInt) evs []"

text \<open>
  An episode is active while its status is neither \<open>DISCHARGED\<close> nor
  \<open>STABILIZED_HOME\<close>. \<open>oneActiveEpisode\<close> says that no two active records carry the same
  national identifier; \<open>consistent\<close> adds that the record numbers are distinct, that no
  record number or national identifier is empty, that the physician queue holds
  ORANGE and GREEN patients only, and that every record that has left the status
  \<open>REGISTERED\<close> has a level (\<open>leveled\<close>).
\<close>

definition isActive :: "Patient \<Rightarrow> bool" where
  "isActive p = (\<not> isTerminal (status p))"

definition episodes :: "Patient list \<Rightarrow> string list" where
  "episodes ps = map nationalId (filter isActive ps)"

definition oneActiveEpisode :: "Patient list \<Rightarrow> bool" where
  "oneActiveEpisode ps = distinct (episodes ps)"

definition leveled :: "Patient \<Rightarrow> bool" where
  "leveled p = (status p = REGISTERED \<or> triageLevel p \<noteq> None)"

definition consistent :: "Patient list \<Rightarrow> bool" where
  "consistent ps =
     (distinct (map ident ps)
      \<and> list_all (\<lambda>p. ident p \<noteq> [] \<and> nationalId p \<noteq> []) ps
      \<and> oneActiveEpisode ps
      \<and> list_all (\<lambda>p. status p = PHYSICIAN_QUEUE \<longrightarrow> twoTier p) ps
      \<and> list_all leveled ps)"

text \<open>
  \<open>appendsStep t old new\<close>: the pathway of \<open>new\<close> is the pathway of \<open>old\<close> followed by
  one step, which carries the status of \<open>new\<close> and the time \<open>t\<close>. \<open>eventTime\<close> is the
  clock reading that an event writes into its pathway step. A pathway is chronological
  when its time stamps do not decrease.
\<close>

definition appendsStep :: "int \<Rightarrow> Patient \<Rightarrow> Patient \<Rightarrow> bool" where
  "appendsStep t old new =
     (pathway new \<noteq> [] \<and> butlast (pathway new) = pathway old
      \<and> step_status (last (pathway new)) = status new
      \<and> step_timestamp (last (pathway new)) = t)"






section \<open>Example patients\<close>

text \<open>
  The patients of the examples of the specification: F (ORANGE, time 1) and G (RED,
  time 5) in the emergency queue; A (ORANGE, time 1), B (GREEN, aged 80, time 2) and
  C (GREEN, aged 30, time 3) in the physician queue.
\<close>

definition exF :: Patient where
  "exF = mkPatient ''F'' ER_QUEUE (Some ORANGE) 40 False 1"

definition exG :: Patient where
  "exG = mkPatient ''G'' ER_QUEUE (Some RED) 40 False 5"

definition exA :: Patient where
  "exA = mkPatient ''A'' PHYSICIAN_QUEUE (Some ORANGE) 30 False 1"

definition exB :: Patient where
  "exB = mkPatient ''B'' PHYSICIAN_QUEUE (Some GREEN) 80 False 2"

definition exC :: Patient where
  "exC = mkPatient ''C'' PHYSICIAN_QUEUE (Some GREEN) 30 False 3"

text \<open>A complete intake form, as the nurse has filled it in before the classifier runs.\<close>

definition exForm :: IntakeForm where
  "exForm = \<lparr>f_id = Some ''MRN-AAAAAA'', f_name = ''Ada'', f_age = Some 30,
     f_sex = Some FEMALE, f_isPregnant = Some False, f_nationalId = ''12345678901234'',
     f_phone = ''0123456789'', f_queueNumber = Some ''Q-001'',
     f_chiefComplaint = ''chest pain'',
     f_vitals = \<lparr>bp = ''80/50'', hr = ''140'', temp = ''36.5'', spo2 = ''90''\<rparr>,
     f_pathway = []\<rparr>"

text \<open>
  A patient holds no ticket of the number \<open>n\<close>: it has no ticket, or its ticket has no
  digit, or the digits of its ticket denote another number.
\<close>

definition noTicketNumber :: "nat \<Rightarrow> Patient \<Rightarrow> bool" where
  "noTicketNumber n q =
     (case readProp (queueNumber q) of
        None \<Rightarrow> True
      | Some t \<Rightarrow> digitsOnly t = [] \<or> parseDigits (digitsOnly t) \<noteq> n)"

text \<open>
  A registration form, an active and a discharged record of the same national identifier,
  and the life of one patient: registered with the ticket Q-001, triaged GREEN by the
  nurse, discharged by the physician, and registered again from the archive.
\<close>

definition exRegForm :: RegistrationForm where
  "exRegForm = \<lparr>r_name = ''Ada'', r_nationalId = ''12345678901234'', r_phone = ''0123456789'',
     r_age = ''30'', r_sex = FEMALE, r_specialty = INTERNAL_MEDICINE\<rparr>"

definition exFirst :: Patient where
  "exFirst = (mkPatient ''MRN-AAAAAA'' PHYSICIAN_QUEUE (Some GREEN) 30 False 1)
               \<lparr>nationalId := ''12345678901234''\<rparr>"

definition exArchived :: Patient where
  "exArchived = exFirst\<lparr>status := DISCHARGED\<rparr>"

definition exRegister :: Event where
  "exRegister = Register 0 1 2 ''AAAAAA'' None exRegForm"

definition exIntake :: Event where
  "exIntake =
     Intake ''1'' [Set_isPregnant (Some False), Set_chiefComplaint ''cough'']
       (Some \<lparr>level = Some GREEN, justification = Some ''stable''\<rparr>) 3 4 ''ZZZZZZ''"

definition exDischarge :: Event where
  "exDischarge = Discharge 5 (Some ''MRN-AAAAAA'') ''rest'' 7 False"

definition exLifecycle :: "Event list" where
  "exLifecycle = [exRegister, exIntake, exDischarge]"

definition exReturn :: Event where
  "exReturn = Register 6 7 8 ''BBBBBB'' (Some exArchived) exRegForm"

text \<open>
  A second form, for another person, and the events after which two registered patients
  hold the same ticket on one day: the returning patient takes the place of the archived
  record, so the count of the day does not grow and the next ticket is issued twice.
\<close>

definition exRegFormB :: RegistrationForm where
  "exRegFormB = exRegForm\<lparr>r_name := ''Bea'', r_nationalId := ''22345678901234''\<rparr>"

definition exCollision :: "Event list" where
  "exCollision = exLifecycle @ [exReturn, Register 9 10 11 ''CCCCCC'' None exRegFormB]"

text \<open>
  Two patients are registered, the first is triaged GREEN and then the second ORANGE.
\<close>

definition exQueueRun :: "Event list" where
  "exQueueRun =
     [exRegister,
      Register 3 4 5 ''BBBBBB'' None exRegFormB,
      Intake ''1'' [Set_isPregnant (Some False), Set_chiefComplaint ''cough'']
        (Some \<lparr>level = Some GREEN, justification = Some ''stable''\<rparr>) 6 7 ''ZZZZZZ'',
      Intake ''q-002'' [Set_isPregnant (Some False), Set_chiefComplaint ''fever'']
        (Some \<lparr>level = Some ORANGE, justification = Some ''urgent''\<rparr>) 8 9 ''YYYYYY'']"

lemmas ex_defs =
  exF_def exG_def exA_def exB_def exC_def mkPatient_def

section \<open>Sorting lemmas\<close>

lemma mset_insertBy: "mset (insertBy cmp x ys) = add_mset x (mset ys)"
  by (induction ys) auto

lemma mset_sortBy: "mset (sortBy cmp xs) = mset xs"
  by (induction xs) (auto simp: sortBy_def mset_insertBy)

lemma set_insertBy: "set (insertBy cmp x ys) = insert x (set ys)"
  by (induction ys) auto

lemma set_sortBy: "set (sortBy cmp xs) = set xs"
  by (induction xs) (auto simp: sortBy_def set_insertBy)

lemma sortBy_Cons: "sortBy cmp (x # xs) = insertBy cmp x (sortBy cmp xs)"
  by (simp add: sortBy_def)

lemma sorted_wrt_insertBy:
  assumes tr: "\<And>a b c. P a \<Longrightarrow> P b \<Longrightarrow> P c \<Longrightarrow> R a b \<Longrightarrow> R b c \<Longrightarrow> R a c"
    and le: "\<And>a b. P a \<Longrightarrow> P b \<Longrightarrow> \<not> cmp a b > 0 \<Longrightarrow> R a b"
    and gt: "\<And>a b. P a \<Longrightarrow> P b \<Longrightarrow> cmp a b > 0 \<Longrightarrow> R b a"
    and px: "P x" and pys: "\<forall>y\<in>set ys. P y"
    and srt: "sorted_wrt R ys"
  shows "sorted_wrt R (insertBy cmp x ys)"
  using pys srt
proof (induction ys)
  case Nil
  then show ?case by simp
next
  case (Cons y ys)
  show ?case
  proof (cases "cmp x y > 0")
    case True
    have "R y x" using gt px Cons.prems(1) True by simp
    moreover have "\<forall>z\<in>set ys. R y z" using Cons.prems(2) by simp
    moreover have "sorted_wrt R (insertBy cmp x ys)"
      using Cons.IH Cons.prems by simp
    ultimately show ?thesis using True by (simp add: set_insertBy)
  next
    case False
    have xy: "R x y" using le px Cons.prems(1) False by simp
    have "\<forall>z\<in>set ys. R x z"
    proof
      fix z assume z: "z \<in> set ys"
      then have "R y z" using Cons.prems(2) by simp
      then show "R x z" using tr [of x y z] px Cons.prems(1) z xy by simp
    qed
    then show ?thesis using False xy Cons.prems(2) by simp
  qed
qed

lemma sorted_wrt_sortBy:
  assumes tr: "\<And>a b c. P a \<Longrightarrow> P b \<Longrightarrow> P c \<Longrightarrow> R a b \<Longrightarrow> R b c \<Longrightarrow> R a c"
    and le: "\<And>a b. P a \<Longrightarrow> P b \<Longrightarrow> \<not> cmp a b > 0 \<Longrightarrow> R a b"
    and gt: "\<And>a b. P a \<Longrightarrow> P b \<Longrightarrow> cmp a b > 0 \<Longrightarrow> R b a"
    and pxs: "\<forall>x\<in>set xs. P x"
  shows "sorted_wrt R (sortBy cmp xs)"
  using pxs
proof (induction xs)
  case Nil
  then show ?case by (simp add: sortBy_def)
next
  case (Cons x xs)
  have "sorted_wrt R (sortBy cmp xs)" using Cons by simp
  moreover have "\<forall>y\<in>set (sortBy cmp xs). P y" using Cons.prems by (simp add: set_sortBy)
  moreover have "P x" using Cons.prems by simp
  ultimately show ?case
    unfolding sortBy_Cons
    using sorted_wrt_insertBy [of P R cmp x "sortBy cmp xs"] tr le gt by blast
qed

lemma erBefore_trans: "erBefore a b \<Longrightarrow> erBefore b c \<Longrightarrow> erBefore a c"
  unfolding erBefore_def by auto

lemma erCompare_le: "\<not> erCompare a b > 0 \<Longrightarrow> erBefore a b"
  unfolding erBefore_def erCompare_def by (auto split: if_splits)

lemma erCompare_gt: "erCompare a b > 0 \<Longrightarrow> erBefore b a"
  unfolding erBefore_def erCompare_def by (auto split: if_splits)

lemma sorted_erQueue: "sorted_wrt erBefore (erQueue patients)"
  unfolding erQueue_def
  by (rule sorted_wrt_sortBy [where P = "\<lambda>_. True"])
     (auto intro: erBefore_trans erCompare_le erCompare_gt)

lemma physicianBefore_trans:
  "twoTier a \<Longrightarrow> twoTier b \<Longrightarrow> twoTier c \<Longrightarrow>
   physicianBefore a b \<Longrightarrow> physicianBefore b c \<Longrightarrow> physicianBefore a c"
  unfolding physicianBefore_def twoTier_def
  by (cases "triageLevel a = Some ORANGE"; cases "triageLevel b = Some ORANGE";
      cases "triageLevel c = Some ORANGE"; simp;
      cases "isElderly a"; cases "isElderly b"; cases "isElderly c"; simp;
      cases "isPregnant a"; cases "isPregnant b"; cases "isPregnant c"; simp)

lemma physicianCompare_le:
  "twoTier a \<Longrightarrow> twoTier b \<Longrightarrow> \<not> physicianCompare a b > 0 \<Longrightarrow> physicianBefore a b"
  unfolding physicianBefore_def physicianCompare_def twoTier_def
  by (cases "triageLevel a = Some ORANGE"; cases "triageLevel b = Some ORANGE"; simp;
      cases "isElderly a"; cases "isElderly b"; simp;
      cases "isPregnant a"; cases "isPregnant b"; simp)

lemma physicianCompare_gt:
  "twoTier a \<Longrightarrow> twoTier b \<Longrightarrow> physicianCompare a b > 0 \<Longrightarrow> physicianBefore b a"
  unfolding physicianBefore_def physicianCompare_def twoTier_def
  by (cases "triageLevel a = Some ORANGE"; cases "triageLevel b = Some ORANGE"; simp;
      cases "isElderly a"; cases "isElderly b"; simp;
      cases "isPregnant a"; cases "isPregnant b"; simp)

section \<open>The emergency queue\<close>

text \<open>
  Claim C8. For every collection of patients, the emergency queue holds exactly the
  patients whose status is \<open>ER_QUEUE\<close> (as a multiset), every RED patient stands before
  every patient that is not RED, two patients that are both RED or both not RED stand in
  ascending order of their time stamps, and the queue of F (ORANGE, time 1) and
  G (RED, time 5) is G followed by F.
\<close>

theorem erQueue_order:
  "mset (erQueue patients) = mset (filter (\<lambda>p. status p = ER_QUEUE) patients)
   \<and> sorted_wrt erBefore (erQueue patients)
   \<and> erQueue [exF, exG] = [exG, exF]"
proof -
  have "erQueue [exF, exG] = [exG, exF]"
    by (simp add: erQueue_def sortBy_def erCompare_def ex_defs)
  then show ?thesis
    by (simp add: sorted_erQueue) (simp add: erQueue_def mset_sortBy)
qed

section \<open>Selection and update lemmas\<close>

lemma findFirst_SomeD: "findFirst P xs = Some x \<Longrightarrow> P x \<and> x \<in> set xs"
  unfolding findFirst_def by (induction xs) (auto split: if_splits)

lemma findFirst_exists: "x \<in> set xs \<Longrightarrow> P x \<Longrightarrow> \<exists>y. findFirst P xs = Some y"
  unfolding findFirst_def by (induction xs) auto

lemma findFirst_None: "findFirst P xs = None \<Longrightarrow> x \<in> set xs \<Longrightarrow> \<not> P x"
  unfolding findFirst_def by (induction xs) (auto split: if_splits)

lemma length_updatePatient: "length (updatePatient i f ps) = length ps"
  by (simp add: updatePatient_def)

lemma nth_updatePatient:
  "k < length ps \<Longrightarrow>
   updatePatient i f ps ! k = (if ident (ps ! k) = i then f (ps ! k) else ps ! k)"
  by (simp add: updatePatient_def)

lemma selected_in_physicianQueue:
  assumes "k < length patients" and "status (patients ! k) = PHYSICIAN_QUEUE"
  shows "\<exists>sp. selectedPatient (physicianQueue patients) (Some (ident (patients ! k))) = Some sp
              \<and> ident sp = ident (patients ! k) \<and> sp \<in> set patients
              \<and> status sp = PHYSICIAN_QUEUE"
proof -
  let ?P = "\<lambda>p. ident p = ident (patients ! k)"
  have "patients ! k \<in> set (physicianQueue patients)"
    using assms by (simp add: physicianQueue_def set_sortBy)
  then obtain sp where sp: "findFirst ?P (physicianQueue patients) = Some sp"
    using findFirst_exists [of "patients ! k" "physicianQueue patients" ?P] by auto
  from findFirst_SomeD [OF sp] have "ident sp = ident (patients ! k)"
    and "sp \<in> set (physicianQueue patients)" by auto
  then show ?thesis using sp
    by (auto simp: selectedPatient_def physicianQueue_def set_sortBy)
qed

lemma selected_in_erQueue:
  assumes "k < length patients" and "status (patients ! k) = ER_QUEUE"
  shows "\<exists>sp. selectedPatient (erQueue patients) (Some (ident (patients ! k))) = Some sp
              \<and> ident sp = ident (patients ! k) \<and> sp \<in> set patients
              \<and> status sp = ER_QUEUE"
proof -
  let ?P = "\<lambda>p. ident p = ident (patients ! k)"
  have "patients ! k \<in> set (erQueue patients)"
    using assms by (simp add: erQueue_def set_sortBy)
  then obtain sp where sp: "findFirst ?P (erQueue patients) = Some sp"
    using findFirst_exists [of "patients ! k" "erQueue patients" ?P] by auto
  from findFirst_SomeD [OF sp] have "ident sp = ident (patients ! k)"
    and "sp \<in> set (erQueue patients)" by auto
  then show ?thesis using sp
    by (auto simp: selectedPatient_def erQueue_def set_sortBy)
qed

lemma findIndex_SomeD:
  "findIndex P xs = Some i \<Longrightarrow> i < length xs \<and> P (xs ! i) \<and> (\<forall>j<i. \<not> P (xs ! j))"
proof (induction xs arbitrary: i)
  case Nil
  then show ?case by simp
next
  case (Cons x xs)
  show ?case
  proof (cases "P x")
    case True
    then show ?thesis using Cons.prems by simp
  next
    case False
    then obtain i' where i': "findIndex P xs = Some i'" and i: "i = Suc i'"
      using Cons.prems by auto
    from Cons.IH [OF i'] show ?thesis using False i
      by (auto simp: nth_Cons split: nat.splits)
  qed
qed

lemma findIndex_NoneD: "findIndex P xs = None \<Longrightarrow> \<forall>x\<in>set xs. \<not> P x"
  by (induction xs) (auto split: if_splits)

lemma addPatient_holds:
  "\<exists>q\<in>set (addPatient e ps).
     ident q = ident e \<and> status q = status e \<and> triageLevel q = triageLevel e
     \<and> isPregnant q = isPregnant e \<and> pathway q = pathway e \<and> nationalId q = nationalId e"
proof (cases "findIndex (\<lambda>p. ident p = ident e) ps")
  case None
  then show ?thesis by (simp add: addPatient_def)
next
  case (Some i)
  from findIndex_SomeD [OF Some] have i: "i < length ps" by simp
  let ?q = "spreadPatient (ps ! i) e"
  have "?q \<in> set (ps[i := ?q])" using i by (simp add: set_update_memI)
  moreover have "ident ?q = ident e \<and> status ?q = status e \<and> triageLevel ?q = triageLevel e
     \<and> isPregnant ?q = isPregnant e \<and> pathway ?q = pathway e \<and> nationalId ?q = nationalId e"
    by (simp add: spreadPatient_def)
  ultimately show ?thesis using Some by (auto simp: addPatient_def)
qed

section \<open>Escalation from the physician queue\<close>

text \<open>
  Claim C2, as stated, fails for notes that consist of white space: they are not empty,
  yet \<^verbatim>\<open>!examNotes.trim()\<close> holds, the handler returns early and the level of the
  patient stays what it was (here ORANGE, not RED).
\<close>

theorem handleTransferToER_counterexample:
  "'' '' \<noteq> [] \<and> status exA = PHYSICIAN_QUEUE
   \<and> handleTransferToER 9 (physicianQueue [exA]) (Some (ident exA)) '' '' [exA] = [exA]
   \<and> triageLevel exA = Some ORANGE"
  by (simp add: handleTransferToER_def selectedPatient_def findFirst_def physicianQueue_def
        sortBy_def trim_def isWhiteSpace_def ex_defs)

text \<open>
  Claim C2, amended. For every patient of status \<open>PHYSICIAN_QUEUE\<close> (the record at
  position \<open>k\<close> of the collection, selected by its identifier in the physician queue):
  an escalation whose notes are empty or blank after trimming is rejected and the whole
  collection, hence the status, the level and the pathway of the patient, is unchanged;
  an escalation whose notes are not blank gives the record the level RED and the status
  \<open>ER_QUEUE\<close>, whatever its level was.
\<close>

theorem handleTransferToER_escalation:
  assumes "k < length patients" and "status (patients ! k) = PHYSICIAN_QUEUE"
  shows "(trim examNotes = [] \<longrightarrow>
            handleTransferToER now (physicianQueue patients) (Some (ident (patients ! k)))
              examNotes patients = patients)
       \<and> (trim examNotes \<noteq> [] \<longrightarrow>
            length (handleTransferToER now (physicianQueue patients)
                      (Some (ident (patients ! k))) examNotes patients) = length patients
          \<and> triageLevel (handleTransferToER now (physicianQueue patients)
                      (Some (ident (patients ! k))) examNotes patients ! k) = Some RED
          \<and> status (handleTransferToER now (physicianQueue patients)
                      (Some (ident (patients ! k))) examNotes patients ! k) = ER_QUEUE)"
proof -
  obtain sp where sp: "selectedPatient (physicianQueue patients) (Some (ident (patients ! k))) = Some sp"
    and id: "ident sp = ident (patients ! k)"
    using selected_in_physicianQueue [OF assms] by blast
  show ?thesis
    using assms(1) sp id
    by (simp add: handleTransferToER_def Let_def length_updatePatient nth_updatePatient)
qed

theorem handleTransferToER_escalation_witness:
  "handleTransferToER 9 (physicianQueue [exA, exB]) (Some (ident ([exA, exB] ! 1))) [] [exA, exB]
      = [exA, exB]
   \<and> triageLevel (handleTransferToER 9 (physicianQueue [exA, exB])
         (Some (ident ([exA, exB] ! 1))) ''chest pain'' [exA, exB] ! 1) = Some RED
   \<and> status (handleTransferToER 9 (physicianQueue [exA, exB])
         (Some (ident ([exA, exB] ! 1))) ''chest pain'' [exA, exB] ! 1) = ER_QUEUE
   \<and> triageLevel ([exA, exB] ! 1) = Some GREEN"
proof -
  have k: "(1::nat) < length [exA, exB]" by simp
  have st: "status ([exA, exB] ! 1) = PHYSICIAN_QUEUE" by (simp add: ex_defs)
  have e: "trim [] = []" by (simp add: trim_def)
  have n: "trim ''chest pain'' \<noteq> []" by (simp add: trim_def isWhiteSpace_def)
  show ?thesis
    using handleTransferToER_escalation [OF k st, of "[]" 9]
          handleTransferToER_escalation [OF k st, of "''chest pain''" 9] e n
    by (simp add: ex_defs)
qed

section \<open>De-escalation from the emergency queue\<close>

text \<open>
  Claim C5. For every patient of status \<open>ER_QUEUE\<close> (the record at position \<open>k\<close>,
  selected by its identifier in the emergency queue) and the disposition
  \<open>PHYSICIAN_QUEUE\<close>: with empty notes, and also with blank ones, the attempt is
  rejected and the collection is unchanged; whenever the collection changes the notes
  are not empty; and a de-escalation that is carried out gives the record the level
  ORANGE and the status \<open>PHYSICIAN_QUEUE\<close>, whatever its level was.
\<close>

theorem handleDisposition_deescalation:
  fixes patients :: "Patient list" and k :: nat
  defines "after notes a b \<equiv>
    handleDisposition a b (erQueue patients) (Some (ident (patients ! k))) notes
      PHYSICIAN_QUEUE patients"
  assumes "k < length patients" and "status (patients ! k) = ER_QUEUE"
  shows "(notes = [] \<longrightarrow> after notes nowStep nowRecord = patients)
       \<and> (trim notes = [] \<longrightarrow> after notes nowStep nowRecord = patients)
       \<and> (after notes nowStep nowRecord \<noteq> patients \<longrightarrow> notes \<noteq> [])
       \<and> (trim notes \<noteq> [] \<longrightarrow>
            length (after notes nowStep nowRecord) = length patients
          \<and> triageLevel (after notes nowStep nowRecord ! k) = Some ORANGE
          \<and> status (after notes nowStep nowRecord ! k) = PHYSICIAN_QUEUE)"
proof -
  obtain sp where sp: "selectedPatient (erQueue patients) (Some (ident (patients ! k))) = Some sp"
    and id: "ident sp = ident (patients ! k)"
    using selected_in_erQueue [OF assms(2,3)] by blast
  have e: "trim [] = []" by (simp add: trim_def)
  show ?thesis
    using assms(2) sp id e
    by (auto simp: after_def handleDisposition_def Let_def length_updatePatient nth_updatePatient)
qed

theorem handleDisposition_deescalation_witness:
  "handleDisposition 7 8 (erQueue [exF, exG]) (Some (ident ([exF, exG] ! 1))) []
      PHYSICIAN_QUEUE [exF, exG] = [exF, exG]
   \<and> handleDisposition 7 8 (erQueue [exF, exG]) (Some (ident ([exF, exG] ! 1))) '' ''
      PHYSICIAN_QUEUE [exF, exG] = [exF, exG]
   \<and> triageLevel ([exF, exG] ! 1) = Some RED
   \<and> triageLevel (handleDisposition 7 8 (erQueue [exF, exG]) (Some (ident ([exF, exG] ! 1)))
        ''stable'' PHYSICIAN_QUEUE [exF, exG] ! 1) = Some ORANGE
   \<and> status (handleDisposition 7 8 (erQueue [exF, exG]) (Some (ident ([exF, exG] ! 1)))
        ''stable'' PHYSICIAN_QUEUE [exF, exG] ! 1) = PHYSICIAN_QUEUE"
proof -
  have k: "(1::nat) < length [exF, exG]" by simp
  have st: "status ([exF, exG] ! 1) = ER_QUEUE" by (simp add: ex_defs)
  have b: "trim '' '' = []" by (simp add: trim_def isWhiteSpace_def)
  have n: "trim ''stable'' \<noteq> []" by (simp add: trim_def isWhiteSpace_def)
  show ?thesis
    using handleDisposition_deescalation [OF k st, of "[]" 7 8]
          handleDisposition_deescalation [OF k st, of "'' ''" 7 8]
          handleDisposition_deescalation [OF k st, of "''stable''" 7 8] b n
    by (simp add: ex_defs)
qed

section \<open>Failure of the classifier\<close>

text \<open>
  Claim C3, as stated, fails: when the text of the response cannot be parsed,
  \<^verbatim>\<open>getAITriage\<close> returns the level GREEN as an ordinary result, and the patient that
  is finalized with it has the level GREEN and the status \<open>PHYSICIAN_QUEUE\<close>.
\<close>

theorem getAITriage_counterexample:
  "getAITriage (\<lambda>_. None) (Some (Some ''<html>'')) = Inr fallbackTriage
   \<and> level fallbackTriage = Some GREEN
   \<and> triageLevel (finalPatient 5 6 ''R'' exForm (Some fallbackTriage)) = Some GREEN
   \<and> status (finalPatient 5 6 ''R'' exForm (Some fallbackTriage)) = PHYSICIAN_QUEUE"
  by (simp add: getAITriage_def fallbackTriage_def finalPatient_def triageStatus_def Let_def)

text \<open>
  Claim C3, amended. When the call of the classifier throws, the exception leaves
  \<^verbatim>\<open>getAITriage\<close> and \<^verbatim>\<open>runAITriage\<close>, and no classifier result is stored. When
  the response cannot be parsed, \<^verbatim>\<open>getAITriage\<close> returns the level GREEN with the
  justification \<^verbatim>\<open>System error: Using default stable classification.\<close>,
  \<^verbatim>\<open>runAITriage\<close> stores it as the classifier result, and the patient finalized with
  it has the level GREEN, the status \<open>PHYSICIAN_QUEUE\<close> and that justification.
\<close>

theorem getAITriage_failure:
  "getAITriage jsonParse None = Inl GenerateContentFailed
   \<and> (isIntakeValid formData \<longrightarrow>
        runAITriage jsonParse None formData aiTriage = Inl GenerateContentFailed)
   \<and> (jsonParse (jsonStrOf body) = None \<longrightarrow>
        getAITriage jsonParse (Some body) = Inr fallbackTriage
        \<and> level fallbackTriage = Some GREEN
        \<and> (isIntakeValid formData \<longrightarrow>
             runAITriage jsonParse (Some body) formData aiTriage = Inr (Some fallbackTriage))
        \<and> triageLevel (finalPatient nowStep nowRecord rnd formData (Some fallbackTriage))
            = Some GREEN
        \<and> status (finalPatient nowStep nowRecord rnd formData (Some fallbackTriage))
            = PHYSICIAN_QUEUE
        \<and> aiJustification (finalPatient nowStep nowRecord rnd formData (Some fallbackTriage))
            = Value ''System error: Using default stable classification.'')"
  by (simp add: getAITriage_def runAITriage_def fallbackTriage_def finalPatient_def
        triageStatus_def Let_def)

theorem getAITriage_failure_witness:
  "isIntakeValid exForm
   \<and> runAITriage (\<lambda>_. None) None exForm None = Inl GenerateContentFailed
   \<and> getAITriage (\<lambda>_. None) (Some (Some ''<html>'')) = Inr fallbackTriage
   \<and> runAITriage (\<lambda>_. None) (Some (Some ''<html>'')) exForm None = Inr (Some fallbackTriage)
   \<and> triageLevel (finalPatient 5 6 ''R'' exForm (Some fallbackTriage)) = Some GREEN
   \<and> status (finalPatient 5 6 ''R'' exForm (Some fallbackTriage)) = PHYSICIAN_QUEUE"
proof -
  have v: "isIntakeValid exForm" by (simp add: isIntakeValid_def exForm_def Let_def)
  have p: "(\<lambda>_. None :: AITriage option) (jsonStrOf (Some ''<html>'')) = None" by simp
  show ?thesis
    using getAITriage_failure [of "\<lambda>_. None" exForm None "Some ''<html>''" 5 6 "''R''"] v p
    by simp
qed

section \<open>The pregnancy flag\<close>

text \<open>
  Claim C10. The record that registration builds has the pregnancy flag false, and so
  has the record of that identifier in the collection afterwards; choosing the sex MALE
  in the intake form sets the flag of the form to false; the patient that finalization
  builds has the flag of the form, and false where the form has none, and so has the
  record of that identifier in the collection afterwards. The flag of a patient record
  is a \<open>bool\<close>: no record holds an undefined one.
\<close>

theorem isPregnant_defined:
  "isPregnant (newEntry toDateString parseInt today nowRecord nowStep rnd selectedExisting
                 registration patients) = False
   \<and> (\<exists>q\<in>set (addPatient (newEntry toDateString parseInt today nowRecord nowStep rnd
                    selectedExisting registration patients) patients).
         ident q = ident (newEntry toDateString parseInt today nowRecord nowStep rnd
                    selectedExisting registration patients) \<and> isPregnant q = False)
   \<and> f_isPregnant (handleInputChange (Set_sex (Some MALE)) prev) = Some False
   \<and> isPregnant (finalPatient nowStep nowRecord rnd formData aiTriage)
       = (case f_isPregnant formData of None \<Rightarrow> False | Some b \<Rightarrow> b)
   \<and> (\<exists>q\<in>set (finalizePatient nowStep nowRecord rnd formData aiTriage patients).
         ident q = ident (finalPatient nowStep nowRecord rnd formData aiTriage)
         \<and> isPregnant q = (case f_isPregnant formData of None \<Rightarrow> False | Some b \<Rightarrow> b))"
proof -
  let ?e = "newEntry toDateString parseInt today nowRecord nowStep rnd selectedExisting
              registration patients"
  let ?fp = "finalPatient nowStep nowRecord rnd formData aiTriage"
  have e: "isPregnant ?e = False" by (simp add: newEntry_def Let_def)
  have f: "isPregnant ?fp = (case f_isPregnant formData of None \<Rightarrow> False | Some b \<Rightarrow> b)"
    by (simp add: finalPatient_def Let_def)
  have m: "f_isPregnant (handleInputChange (Set_sex (Some MALE)) prev) = Some False"
    by (simp add: handleInputChange_def Let_def)
  from addPatient_holds [of ?e patients] e
  have 1: "\<exists>q\<in>set (addPatient ?e patients). ident q = ident ?e \<and> isPregnant q = False"
    by auto
  from addPatient_holds [of ?fp patients] f
  have 2: "\<exists>q\<in>set (finalizePatient nowStep nowRecord rnd formData aiTriage patients).
         ident q = ident ?fp
         \<and> isPregnant q = (case f_isPregnant formData of None \<Rightarrow> False | Some b \<Rightarrow> b)"
    unfolding finalizePatient_def by auto
  show ?thesis using e f m 1 2 by blast
qed

section \<open>Invariants of the collection\<close>

lemma set_episodes: "set (episodes ps) = nationalId ` {p \<in> set ps. isActive p}"
  by (auto simp: episodes_def)

lemma episodes_Cons:
  "episodes (p # ps) = (if isActive p then nationalId p # episodes ps else episodes ps)"
  by (simp add: episodes_def)

lemma episodes_append: "episodes (ps @ qs) = episodes ps @ episodes qs"
  by (simp add: episodes_def)

lemma set_episodes_update:
  "set (episodes (ps[i := x])) \<subseteq> insert (nationalId x) (set (episodes ps))"
  using set_update_subset_insert [of ps i x] by (auto simp: set_episodes)

lemma episodes_update_same:
  "i < length ps \<Longrightarrow> nationalId x = nationalId (ps ! i) \<Longrightarrow> isActive x = isActive (ps ! i)
   \<Longrightarrow> episodes (ps[i := x]) = episodes ps"
proof (induction ps arbitrary: i)
  case Nil
  then show ?case by simp
next
  case (Cons p ps)
  then show ?case by (cases i) (simp_all add: episodes_Cons)
qed

lemma episodes_update_new:
  "distinct (episodes ps) \<Longrightarrow> nationalId x \<notin> set (episodes ps)
   \<Longrightarrow> distinct (episodes (ps[i := x]))"
proof (induction ps arbitrary: i)
  case Nil
  then show ?case by simp
next
  case (Cons p ps)
  show ?case
  proof (cases i)
    case 0
    then show ?thesis using Cons.prems by (auto simp: episodes_Cons split: if_splits)
  next
    case (Suc j)
    have d: "distinct (episodes ps)" and n: "nationalId x \<notin> set (episodes ps)"
      using Cons.prems by (auto simp: episodes_Cons split: if_splits)
    have ih: "distinct (episodes (ps[j := x]))" using Cons.IH [OF d n] .
    show ?thesis
    proof (cases "isActive p")
      case True
      then have "nationalId p \<notin> set (episodes ps)" and "nationalId p \<noteq> nationalId x"
        using Cons.prems by (auto simp: episodes_Cons)
      then have "nationalId p \<notin> set (episodes (ps[j := x]))"
        using set_episodes_update [of ps j x] by auto
      then show ?thesis using ih True Suc by (simp add: episodes_Cons)
    next
      case False
      then show ?thesis using ih Suc by (simp add: episodes_Cons)
    qed
  qed
qed

lemma episodes_map_shrink:
  assumes "\<forall>p\<in>set ps. nationalId (g p) = nationalId p \<and> (isActive (g p) \<longrightarrow> isActive p)"
    and "distinct (episodes ps)"
  shows "distinct (episodes (map g ps))"
  using assms
proof (induction ps)
  case Nil
  then show ?case by (simp add: episodes_def)
next
  case (Cons p ps)
  have sub: "set (episodes (map g ps)) \<subseteq> set (episodes ps)"
    using Cons.prems(1) by (force simp: set_episodes)
  have d: "distinct (episodes ps)" using Cons.prems(2) by (simp add: episodes_Cons split: if_splits)
  have ih: "distinct (episodes (map g ps))" using Cons.IH Cons.prems(1) d by simp
  show ?case
  proof (cases "isActive (g p)")
    case True
    then have "isActive p" and "nationalId (g p) = nationalId p" using Cons.prems(1) by auto
    then have "nationalId (g p) \<notin> set (episodes ps)" using Cons.prems(2) by (simp add: episodes_Cons)
    then show ?thesis using sub ih True by (auto simp: episodes_Cons)
  next
    case False
    then show ?thesis using ih by (simp add: episodes_Cons)
  qed
qed

lemma distinct_ident_eq:
  "distinct (map ident ps) \<Longrightarrow> p \<in> set ps \<Longrightarrow> q \<in> set ps \<Longrightarrow> ident p = ident q \<Longrightarrow> p = q"
  by (meson distinct_map inj_onD)

lemma length_trim_le: "length (trim s) \<le> length s"
proof -
  have "length (trim s) \<le> length (dropWhile isWhiteSpace s)"
    unfolding trim_def using length_dropWhile_le [of isWhiteSpace "rev (dropWhile isWhiteSpace s)"]
    by simp
  also have "\<dots> \<le> length s" by (rule length_dropWhile_le)
  finally show ?thesis .
qed

lemma spreadPatient_fields:
  "ident (spreadPatient old new) = ident new"
  "nationalId (spreadPatient old new) = nationalId new"
  "status (spreadPatient old new) = status new"
  "triageLevel (spreadPatient old new) = triageLevel new"
  "pathway (spreadPatient old new) = pathway new"
  "isPregnant (spreadPatient old new) = isPregnant new"
  by (simp_all add: spreadPatient_def)

lemma isActive_spread: "isActive (spreadPatient old new) = isActive new"
  by (simp add: isActive_def spreadPatient_fields)

lemma twoTier_spread: "twoTier (spreadPatient old new) = twoTier new"
  by (simp add: twoTier_def spreadPatient_fields)

lemma list_all_update:
  "list_all P xs \<Longrightarrow> P x \<Longrightarrow> list_all P (xs[i := x])"
  using set_update_subset_insert [of xs i x] by (auto simp: list_all_iff)

lemma addPatient_all:
  assumes "list_all Q ps" and "\<And>old. Q (spreadPatient old e)" and "Q e"
  shows "list_all Q (addPatient e ps)"
  using assms by (simp add: addPatient_def list_all_update split: option.splits)

text \<open>addPatient keeps the identifiers distinct and the fields well formed.\<close>

lemma addPatient_basic:
  assumes "distinct (map ident ps)" and "list_all Q ps"
    and "\<And>old. Q (spreadPatient old e)" and "Q e"
  shows "distinct (map ident (addPatient e ps)) \<and> list_all Q (addPatient e ps)"
proof (cases "findIndex (\<lambda>p. ident p = ident e) ps")
  case None
  from findIndex_NoneD [OF None] have "ident e \<notin> set (map ident ps)" by auto
  then show ?thesis using assms None by (simp add: addPatient_def)
next
  case (Some i)
  from findIndex_SomeD [OF Some] have i: "i < length ps" and e: "ident (ps ! i) = ident e" by auto
  have "map ident (ps[i := spreadPatient (ps ! i) e]) = map ident ps"
    using i e by (simp add: map_update spreadPatient_fields list_update_same_conv)
  then show ?thesis using assms Some by (simp add: addPatient_def list_all_update)
qed

lemma addPatient_new_episode:
  assumes "oneActiveEpisode ps" and "nationalId e \<notin> set (episodes ps)"
  shows "oneActiveEpisode (addPatient e ps)"
proof (cases "findIndex (\<lambda>p. ident p = ident e) ps")
  case None
  then show ?thesis using assms
    by (auto simp: addPatient_def oneActiveEpisode_def episodes_append episodes_Cons episodes_def)
next
  case (Some i)
  have "distinct (episodes (ps[i := spreadPatient (ps ! i) e]))"
    using assms by (intro episodes_update_new) (simp_all add: oneActiveEpisode_def spreadPatient_fields)
  then show ?thesis using Some by (simp add: addPatient_def oneActiveEpisode_def)
qed

lemma valid_no_active:
  assumes "isFormValid formData ps"
  shows "r_nationalId formData \<notin> set (episodes ps)"
proof
  assume "r_nationalId formData \<in> set (episodes ps)"
  then obtain p where p: "p \<in> set ps" "isActive p" "nationalId p = r_nationalId formData"
    by (auto simp: set_episodes)
  have "length (r_nationalId formData) \<ge> 14"
    using assms length_trim_le [of "r_nationalId formData"] by (simp add: isFormValid_def)
  then have "findFirst (\<lambda>p. nationalId p = r_nationalId formData
                  \<and> status p \<noteq> DISCHARGED \<and> status p \<noteq> STABILIZED_HOME) ps = None"
    using assms by (auto simp: isFormValid_def activeSession_def split: if_splits)
  from findFirst_None [OF this p(1)] show False
    using p(2,3) by (simp add: isActive_def isTerminal_def)
qed

lemma newEntry_fields:
  "nationalId (newEntry td pi a b c rnd sel formData ps) = r_nationalId formData"
  "status (newEntry td pi a b c rnd sel formData ps) = REGISTERED"
  "ident (newEntry td pi a b c rnd sel formData ps) \<noteq> []"
  by (simp_all add: newEntry_def Let_def split: option.splits)

lemma consistent_register:
  assumes "consistent ps"
  shows "consistent (fst (handleRegister td pi a b c rnd sel formData ps))"
proof (cases "isFormValid formData ps")
  case False
  then show ?thesis using assms by (simp add: handleRegister_def)
next
  case True
  let ?e = "newEntry td pi a b c rnd sel formData ps"
  have r: "fst (handleRegister td pi a b c rnd sel formData ps) = addPatient ?e ps"
    using True by (simp add: handleRegister_def Let_def)
  have n: "nationalId ?e \<noteq> []"
    using True by (auto simp: newEntry_fields isFormValid_def trim_def)
  have 1: "distinct (map ident (addPatient ?e ps))
      \<and> list_all (\<lambda>p. ident p \<noteq> [] \<and> nationalId p \<noteq> []) (addPatient ?e ps)"
    using assms n by (intro addPatient_basic) (simp_all add: consistent_def spreadPatient_fields newEntry_fields)
  have 2: "distinct (map ident (addPatient ?e ps))
      \<and> list_all (\<lambda>p. status p = PHYSICIAN_QUEUE \<longrightarrow> twoTier p) (addPatient ?e ps)"
    using assms by (intro addPatient_basic) (simp_all add: consistent_def spreadPatient_fields newEntry_fields)
  have 3: "oneActiveEpisode (addPatient ?e ps)"
    using assms valid_no_active [OF True]
    by (intro addPatient_new_episode) (simp_all add: consistent_def newEntry_fields)
  have 4: "list_all leveled (addPatient ?e ps)"
    using assms
    by (intro addPatient_all)
       (simp_all add: consistent_def leveled_def spreadPatient_fields newEntry_fields)
  show ?thesis using 1 2 3 4 r by (simp add: consistent_def)
qed

lemma handleQueueSearch_INTAKE:
  assumes "handleQueueSearch queueInput ps = INTAKE f"
  shows "\<exists>found\<in>set ps. status found = REGISTERED \<and> f_id f = Some (ident found)
           \<and> f_nationalId f = nationalId found \<and> f_pathway f = pathway found"
proof -
  obtain found where fo: "findFirst (ticketMatches (toUpperCase (trim queueInput))) ps = Some found"
    using assms by (auto simp: handleQueueSearch_def Let_def split: if_splits option.splits)
  then have "found \<in> set ps" using findFirst_SomeD by fastforce
  moreover have "status found = REGISTERED \<and> f_id f = Some (ident found)
           \<and> f_nationalId f = nationalId found \<and> f_pathway f = pathway found"
    using assms fo by (auto simp: handleQueueSearch_def Let_def split: if_splits)
  ultimately show ?thesis by blast
qed

lemma handleInputChange_keeps:
  "f_id (handleInputChange c f) = f_id f \<and> f_nationalId (handleInputChange c f) = f_nationalId f
   \<and> f_pathway (handleInputChange c f) = f_pathway f"
  by (cases c) (simp_all add: handleInputChange_def setField_def Let_def)

lemma fold_handleInputChange_keeps:
  "f_id (fold handleInputChange cs f) = f_id f
   \<and> f_nationalId (fold handleInputChange cs f) = f_nationalId f
   \<and> f_pathway (fold handleInputChange cs f) = f_pathway f"
  by (induction cs arbitrary: f) (simp_all add: handleInputChange_keeps)

lemma finalPatient_fields:
  assumes "f_id formData = Some i" and "i \<noteq> []" and "f_nationalId formData \<noteq> []"
  shows "ident (finalPatient a b rnd formData ai) = i"
    and "nationalId (finalPatient a b rnd formData ai) = f_nationalId formData"
    and "isActive (finalPatient a b rnd formData ai)"
    and "status (finalPatient a b rnd formData ai) = PHYSICIAN_QUEUE
         \<longrightarrow> twoTier (finalPatient a b rnd formData ai)"
  using assms
  by (auto simp: finalPatient_def Let_def triageStatus_def isActive_def isTerminal_def
        twoTier_def split: option.splits)
     (use TriageLevel.exhaust in blast)

lemma findIndex_ident:
  assumes "distinct (map ident ps)" and "found \<in> set ps"
  shows "\<exists>i. findIndex (\<lambda>p. ident p = ident found) ps = Some i \<and> i < length ps \<and> ps ! i = found"
proof (cases "findIndex (\<lambda>p. ident p = ident found) ps")
  case None
  from findIndex_NoneD [OF None] assms(2) show ?thesis by auto
next
  case (Some i)
  from findIndex_SomeD [OF Some] have i: "i < length ps" and e: "ident (ps ! i) = ident found"
    by auto
  then have "ps ! i = found"
    using distinct_ident_eq [OF assms(1) _ assms(2), of "ps ! i"] by simp
  then show ?thesis using Some i by simp
qed

lemma consistent_intake:
  assumes "consistent ps" and "handleQueueSearch queueInput ps = INTAKE f"
  shows "consistent (finalizePatient a b rnd (fold handleInputChange cs f) ai ps)"
proof -
  from handleQueueSearch_INTAKE [OF assms(2)]
  obtain found where fo: "found \<in> set ps" "status found = REGISTERED"
    "f_id f = Some (ident found)" "f_nationalId f = nationalId found" by blast
  let ?form = "fold handleInputChange cs f"
  let ?fp = "finalPatient a b rnd ?form ai"
  have ne: "ident found \<noteq> []" "nationalId found \<noteq> []"
    using assms(1) fo(1) by (auto simp: consistent_def list_all_iff)
  have k: "f_id ?form = Some (ident found)" "f_nationalId ?form \<noteq> []"
    "f_nationalId ?form = nationalId found"
    using fo ne by (simp_all add: fold_handleInputChange_keeps)
  note fp = finalPatient_fields [OF k(1) ne(1) k(2), of a b rnd ai]
  obtain i where i: "findIndex (\<lambda>p. ident p = ident ?fp) ps = Some i" "i < length ps"
    "ps ! i = found"
    using findIndex_ident [of ps found] assms(1) fo(1) fp(1) by (auto simp: consistent_def)
  have r: "finalizePatient a b rnd ?form ai ps = ps[i := spreadPatient found ?fp]"
    using i by (simp add: finalizePatient_def addPatient_def)
  have 1: "distinct (map ident (addPatient ?fp ps))
      \<and> list_all (\<lambda>p. ident p \<noteq> [] \<and> nationalId p \<noteq> []) (addPatient ?fp ps)"
    using assms(1) fp(1,2) ne k
    by (intro addPatient_basic) (simp_all add: consistent_def spreadPatient_fields)
  have 2: "distinct (map ident (addPatient ?fp ps))
      \<and> list_all (\<lambda>p. status p = PHYSICIAN_QUEUE \<longrightarrow> twoTier p) (addPatient ?fp ps)"
    using assms(1) fp(4)
    by (intro addPatient_basic) (simp_all add: consistent_def spreadPatient_fields twoTier_spread)
  have "episodes (ps[i := spreadPatient found ?fp]) = episodes ps"
    using i fp(2,3) k(3) fo(2)
    by (intro episodes_update_same)
       (simp_all add: spreadPatient_fields isActive_spread isActive_def isTerminal_def)
  then have 3: "oneActiveEpisode (finalizePatient a b rnd ?form ai ps)"
    using assms(1) r by (simp add: consistent_def oneActiveEpisode_def)
  have 4: "list_all leveled (addPatient ?fp ps)"
    using assms(1)
    by (intro addPatient_all)
       (simp_all add: consistent_def leveled_def spreadPatient_fields finalPatient_def Let_def)
  show ?thesis using 1 2 3 4 by (simp add: consistent_def finalizePatient_def)
qed

lemma consistent_updatePatient:
  assumes "consistent ps" and "sp \<in> set ps" and "isActive sp"
    and f: "\<And>p. ident (f p) = ident p \<and> nationalId (f p) = nationalId p
                 \<and> (status (f p) = PHYSICIAN_QUEUE \<longrightarrow> twoTier (f p))"
    and l: "leveled (f sp)"
  shows "consistent (updatePatient (ident sp) f ps)"
proof -
  let ?g = "\<lambda>p. if ident p = ident sp then f p else p"
  have d: "distinct (map ident ps)" using assms(1) by (simp add: consistent_def)
  have "map ident (map ?g ps) = map ident ps" using f by (simp add: comp_def)
  then have 1: "distinct (map ident (map ?g ps))" using d by (simp only:)
  have 2: "list_all (\<lambda>p. ident p \<noteq> [] \<and> nationalId p \<noteq> []) (map ?g ps)"
    using assms(1) f by (auto simp: consistent_def list_all_iff)
  have 4: "list_all (\<lambda>p. status p = PHYSICIAN_QUEUE \<longrightarrow> twoTier p) (map ?g ps)"
    using assms(1) f by (auto simp: consistent_def list_all_iff)
  have 5: "list_all leveled (map ?g ps)"
    unfolding list_all_iff
  proof
    fix q assume "q \<in> set (map ?g ps)"
    then obtain p where p: "p \<in> set ps" and q: "q = ?g p" by auto
    show "leveled q"
    proof (cases "ident p = ident sp")
      case True
      then have "p = sp" using distinct_ident_eq [OF d p assms(2)] by simp
      then show ?thesis using q l by simp
    next
      case False
      then show ?thesis using q p assms(1) by (simp add: consistent_def list_all_iff)
    qed
  qed
  have "\<forall>p\<in>set ps. nationalId (?g p) = nationalId p \<and> (isActive (?g p) \<longrightarrow> isActive p)"
  proof
    fix p assume p: "p \<in> set ps"
    show "nationalId (?g p) = nationalId p \<and> (isActive (?g p) \<longrightarrow> isActive p)"
    proof (cases "ident p = ident sp")
      case True
      then have "p = sp" using distinct_ident_eq [OF d p assms(2)] by simp
      then show ?thesis using assms(3) f by simp
    next
      case False
      then show ?thesis by simp
    qed
  qed
  then have 3: "distinct (episodes (map ?g ps))"
    using assms(1) by (intro episodes_map_shrink) (simp_all add: consistent_def oneActiveEpisode_def)
  show ?thesis
    unfolding consistent_def updatePatient_def oneActiveEpisode_def
    using 1 2 3 4 5 by blast
qed

lemma selected_physician:
  assumes "selectedPatient (physicianQueue ps) sel = Some sp"
  shows "sp \<in> set ps \<and> status sp = PHYSICIAN_QUEUE \<and> isActive sp"
proof -
  obtain i where "findFirst (\<lambda>p. ident p = i) (physicianQueue ps) = Some sp"
    using assms by (auto simp: selectedPatient_def split: option.splits)
  from findFirst_SomeD [OF this] show ?thesis
    by (simp add: physicianQueue_def set_sortBy isActive_def isTerminal_def)
qed

lemma selected_er:
  assumes "selectedPatient (erQueue ps) sel = Some sp"
  shows "sp \<in> set ps \<and> status sp = ER_QUEUE \<and> isActive sp"
proof -
  obtain i where "findFirst (\<lambda>p. ident p = i) (erQueue ps) = Some sp"
    using assms by (auto simp: selectedPatient_def split: option.splits)
  from findFirst_SomeD [OF this] show ?thesis
    by (simp add: erQueue_def set_sortBy isActive_def isTerminal_def)
qed

lemma consistent_transfer:
  assumes "consistent ps"
  shows "consistent (handleTransferToER now (physicianQueue ps) sel notes ps)"
proof (cases "selectedPatient (physicianQueue ps) sel")
  case None
  then show ?thesis using assms by (simp add: handleTransferToER_def)
next
  case (Some sp)
  from selected_physician [OF Some]
  have sp: "sp \<in> set ps" "isActive sp" and st: "status sp = PHYSICIAN_QUEUE" by auto
  have lv: "triageLevel sp \<noteq> None"
    using assms sp(1) st by (auto simp: consistent_def list_all_iff leveled_def)
  show ?thesis
    using Some assms lv consistent_updatePatient [OF assms sp]
    by (simp add: handleTransferToER_def Let_def leveled_def)
qed

lemma consistent_admit:
  assumes "consistent ps"
  shows "consistent (handleAdmit now (physicianQueue ps) sel notes ps)"
proof (cases "selectedPatient (physicianQueue ps) sel")
  case None
  then show ?thesis using assms by (simp add: handleAdmit_def)
next
  case (Some sp)
  from selected_physician [OF Some]
  have sp: "sp \<in> set ps" "isActive sp" and st: "status sp = PHYSICIAN_QUEUE" by auto
  have lv: "triageLevel sp \<noteq> None"
    using assms sp(1) st by (auto simp: consistent_def list_all_iff leveled_def)
  show ?thesis
    using Some assms lv consistent_updatePatient [OF assms sp]
    by (simp add: handleAdmit_def Let_def leveled_def)
qed

lemma consistent_discharge:
  assumes "consistent ps"
  shows "consistent (finalizeDischarge now (physicianQueue ps) sel notes days needs ps)"
proof (cases "selectedPatient (physicianQueue ps) sel")
  case None
  then show ?thesis using assms by (simp add: finalizeDischarge_def)
next
  case (Some sp)
  from selected_physician [OF Some]
  have sp: "sp \<in> set ps" "isActive sp" and st: "status sp = PHYSICIAN_QUEUE" by auto
  have lv: "triageLevel sp \<noteq> None"
    using assms sp(1) st by (auto simp: consistent_def list_all_iff leveled_def)
  show ?thesis
    using Some assms lv consistent_updatePatient [OF assms sp]
    by (simp add: finalizeDischarge_def Let_def leveled_def)
qed

lemma consistent_disposition:
  assumes "consistent ps"
  shows "consistent (handleDisposition a b (erQueue ps) sel notes st ps)"
proof (cases "selectedPatient (erQueue ps) sel")
  case None
  then show ?thesis using assms by (simp add: handleDisposition_def)
next
  case (Some sp)
  from selected_er [OF Some]
  have sp: "sp \<in> set ps" "isActive sp" and st: "status sp = ER_QUEUE" by auto
  have lv: "triageLevel sp \<noteq> None"
    using assms sp(1) st by (auto simp: consistent_def list_all_iff leveled_def)
  show ?thesis
    using Some assms lv consistent_updatePatient [OF assms sp]
    by (simp add: handleDisposition_def Let_def twoTier_def leveled_def)
qed

lemma consistent_step:
  assumes "consistent ps"
  shows "consistent (step td pi ev ps)"
proof (cases ev)
  case (Intake queueInput cs ai a b rnd)
  then show ?thesis
    using assms consistent_intake [OF assms]
    by (auto simp: step_def split: SearchResult.splits)
qed (simp_all add: step_def assms consistent_register consistent_transfer consistent_admit
       consistent_discharge consistent_disposition)

lemma consistent_fold:
  "consistent ps \<Longrightarrow> consistent (fold (step td pi) evs ps)"
  by (induction evs arbitrary: ps) (simp_all add: consistent_step)

lemma consistent_run: "consistent (run td pi evs)"
  unfolding run_def
  by (rule consistent_fold) (simp add: consistent_def oneActiveEpisode_def episodes_def)

section \<open>One active episode\<close>

lemma activeSession_None_iff:
  assumes "length (r_nationalId formData) \<ge> 14"
  shows "(activeSession formData ps = None)
       = (\<not> (\<exists>p\<in>set ps. nationalId p = r_nationalId formData \<and> \<not> isTerminal (status p)))"
proof -
  let ?P = "\<lambda>p. nationalId p = r_nationalId formData
                  \<and> status p \<noteq> DISCHARGED \<and> status p \<noteq> STABILIZED_HOME"
  have a: "activeSession formData ps = findFirst ?P ps"
    using assms by (auto simp: activeSession_def)
  show ?thesis
  proof (cases "findFirst ?P ps")
    case None
    then show ?thesis using a findFirst_None [OF None] by (auto simp: isTerminal_def)
  next
    case (Some q)
    from findFirst_SomeD [OF Some] show ?thesis using a Some by (auto simp: isTerminal_def)
  qed
qed

lemma isFormValid_iff:
  "isFormValid formData ps
     = (length (trim (r_name formData)) > 0
        \<and> length (trim (r_nationalId formData)) = 14
        \<and> length (trim (r_phone formData)) > 7
        \<and> r_age formData \<noteq> []
        \<and> \<not> (\<exists>p\<in>set ps. nationalId p = r_nationalId formData \<and> \<not> isTerminal (status p)))"
proof (cases "length (trim (r_nationalId formData)) = 14")
  case True
  then have "length (r_nationalId formData) \<ge> 14"
    using length_trim_le [of "r_nationalId formData"] by simp
  from activeSession_None_iff [OF this] show ?thesis by (simp add: isFormValid_def)
next
  case False
  then show ?thesis by (simp add: isFormValid_def)
qed

lemma duplicate_blocked:
  assumes "\<exists>p\<in>set ps. nationalId p = r_nationalId formData \<and> \<not> isTerminal (status p)"
  shows "handleRegister td pi a b c rnd sel formData ps = (ps, None)"
  using assms isFormValid_iff [of formData ps] by (simp add: handleRegister_def)

lemma duplicate_reported:
  assumes "\<exists>p\<in>set ps. nationalId p = r_nationalId formData \<and> \<not> isTerminal (status p)"
    and "length (r_nationalId formData) \<ge> 14"
  shows "\<exists>q. activeSession formData ps = Some q \<and> q \<in> set ps
            \<and> nationalId q = r_nationalId formData \<and> \<not> isTerminal (status q)"
proof -
  let ?P = "\<lambda>p. nationalId p = r_nationalId formData
                  \<and> status p \<noteq> DISCHARGED \<and> status p \<noteq> STABILIZED_HOME"
  have a: "activeSession formData ps = findFirst ?P ps"
    using assms(2) by (auto simp: activeSession_def)
  obtain q where q: "findFirst ?P ps = Some q"
    using assms(1) findFirst_exists [of _ ps ?P] by (auto simp: isTerminal_def)
  from findFirst_SomeD [OF q] show ?thesis using a q by (auto simp: isTerminal_def)
qed

lemma ex_valid: "isFormValid exRegForm [exArchived]"
  by (simp add: isFormValid_def activeSession_def findFirst_def trim_def isWhiteSpace_def
        exRegForm_def exArchived_def exFirst_def mkPatient_def)

lemma first_ticket: "padStart 3 (CHR ''0'') (showNat (Suc 0)) = ''001''"
  by (simp add: padStart_def showNat.simps numeral_2_eq_2)

lemma second_ticket: "padStart 3 (CHR ''0'') (showNat (Suc (Suc 0))) = ''002''"
  by (simp add: padStart_def showNat.simps numeral_2_eq_2)

text \<open>
  Claim C4, as stated, fails in its last part: the record number of a new registration
  is the one of the archived record only when the clerk selected that record; a
  registration entered as a new patient gets a newly generated number, also when the same
  identity was registered and discharged before, and the collection then holds two
  records of that identity under two numbers.
\<close>

theorem one_active_episode_counterexample:
  "status exArchived = DISCHARGED \<and> nationalId exArchived = r_nationalId exRegForm
   \<and> ident exArchived = ''MRN-AAAAAA''
   \<and> snd (handleRegister (\<lambda>_. ''day'') (\<lambda>_. Some 30) 0 1 2 ''BBBBBB'' None exRegForm
            [exArchived]) = Some (Value ''Q-002'', ''MRN-BBBBBB'')
   \<and> map ident (fst (handleRegister (\<lambda>_. ''day'') (\<lambda>_. Some 30) 0 1 2 ''BBBBBB'' None exRegForm
            [exArchived])) = [''MRN-AAAAAA'', ''MRN-BBBBBB'']"
  using ex_valid
  by (simp add: handleRegister_def newEntry_def Let_def addPatient_def
        second_ticket exRegForm_def exArchived_def exFirst_def mkPatient_def)

text \<open>
  Claim C4, amended. In every collection that the application reaches, no two records
  of a non-terminal status carry the same national identifier. A registration for a
  national identifier that an active record carries is rejected and leaves the collection
  as it was, and the platform holds that record as the active session (for an identifier
  of at least 14 characters, as every registered one is). A form is accepted exactly when
  its name, identifier, phone and age are well formed and no active record carries the
  identifier, so after the earlier episode is discharged the registration goes through;
  the record then gets the number of the archived record that the clerk selected, and
  a newly generated number when none was selected.
\<close>

theorem one_active_episode:
  "oneActiveEpisode (run toDateString parseInt evs)
   \<and> ((\<exists>p\<in>set patients. nationalId p = r_nationalId formData \<and> \<not> isTerminal (status p)) \<longrightarrow>
        handleRegister toDateString parseInt today nowRecord nowStep rnd selectedExisting
          formData patients = (patients, None))
   \<and> ((\<exists>p\<in>set patients. nationalId p = r_nationalId formData \<and> \<not> isTerminal (status p))
        \<and> length (r_nationalId formData) \<ge> 14 \<longrightarrow>
        (\<exists>q. activeSession formData patients = Some q \<and> q \<in> set patients
            \<and> nationalId q = r_nationalId formData \<and> \<not> isTerminal (status q)))
   \<and> isFormValid formData patients
       = (length (trim (r_name formData)) > 0
          \<and> length (trim (r_nationalId formData)) = 14
          \<and> length (trim (r_phone formData)) > 7
          \<and> r_age formData \<noteq> []
          \<and> \<not> (\<exists>p\<in>set patients. nationalId p = r_nationalId formData
                                  \<and> \<not> isTerminal (status p)))
   \<and> (isFormValid formData patients \<longrightarrow>
        handleRegister toDateString parseInt today nowRecord nowStep rnd selectedExisting
          formData patients
          = (addPatient (newEntry toDateString parseInt today nowRecord nowStep rnd
                           selectedExisting formData patients) patients,
             Some (queueNumber (newEntry toDateString parseInt today nowRecord nowStep rnd
                                  selectedExisting formData patients),
                   ident (newEntry toDateString parseInt today nowRecord nowStep rnd
                            selectedExisting formData patients)))
        \<and> ident (newEntry toDateString parseInt today nowRecord nowStep rnd
                    selectedExisting formData patients)
            = (case selectedExisting of
                 None \<Rightarrow> ''MRN-'' @ rnd
               | Some x \<Rightarrow> if ident x = [] then ''MRN-'' @ rnd else ident x))"
proof -
  have 1: "oneActiveEpisode (run toDateString parseInt evs)"
    using consistent_run [of toDateString parseInt evs] by (simp add: consistent_def)
  have 5: "isFormValid formData patients \<longrightarrow>
        handleRegister toDateString parseInt today nowRecord nowStep rnd selectedExisting
          formData patients
          = (addPatient (newEntry toDateString parseInt today nowRecord nowStep rnd
                           selectedExisting formData patients) patients,
             Some (queueNumber (newEntry toDateString parseInt today nowRecord nowStep rnd
                                  selectedExisting formData patients),
                   ident (newEntry toDateString parseInt today nowRecord nowStep rnd
                            selectedExisting formData patients)))
        \<and> ident (newEntry toDateString parseInt today nowRecord nowStep rnd
                    selectedExisting formData patients)
            = (case selectedExisting of
                 None \<Rightarrow> ''MRN-'' @ rnd
               | Some x \<Rightarrow> if ident x = [] then ''MRN-'' @ rnd else ident x)"
    by (simp add: handleRegister_def Let_def newEntry_def)
  show ?thesis
    using 1 5 duplicate_blocked [of patients formData] duplicate_reported [of patients formData]
          isFormValid_iff [of formData patients]
    by blast
qed

theorem one_active_episode_witness:
  "handleRegister (\<lambda>_. ''day'') (\<lambda>_. Some 30) 0 1 2 ''BBBBBB'' None exRegForm [exFirst]
     = ([exFirst], None)
   \<and> activeSession exRegForm [exFirst] = Some exFirst
   \<and> isFormValid exRegForm [exArchived]
   \<and> snd (handleRegister (\<lambda>_. ''day'') (\<lambda>_. Some 30) 0 1 2 ''BBBBBB'' (Some exArchived)
            exRegForm [exArchived]) = Some (Value ''Q-002'', ''MRN-AAAAAA'')
   \<and> oneActiveEpisode
        (run (\<lambda>_. ''day'') (\<lambda>_. Some 30)
           [Register 0 1 2 ''BBBBBB'' None exRegForm, Register 3 4 5 ''CCCCCC'' None exRegForm])"
proof -
  have a: "\<exists>p\<in>set [exFirst]. nationalId p = r_nationalId exRegForm \<and> \<not> isTerminal (status p)"
    by (simp add: exFirst_def exRegForm_def mkPatient_def isTerminal_def)
  have l: "length (r_nationalId exRegForm) \<ge> 14" by (simp add: exRegForm_def)
  have n: "nationalId exFirst = r_nationalId exRegForm"
    by (simp add: exFirst_def exRegForm_def mkPatient_def)
  have i: "ident exArchived = ''MRN-AAAAAA''"
    by (simp add: exArchived_def exFirst_def mkPatient_def)
  have q: "queueNumber (newEntry (\<lambda>_. ''day'') (\<lambda>_. Some 30) 0 1 2 ''BBBBBB'' (Some exArchived)
             exRegForm [exArchived]) = Value ''Q-002''"
    by (simp add: newEntry_def Let_def second_ticket)
  note t1 = one_active_episode [where patients = "[exFirst]" and formData = exRegForm
      and toDateString = "\<lambda>_. ''day''" and parseInt = "\<lambda>_. Some 30" and today = 0
      and nowRecord = 1 and nowStep = 2 and rnd = "''BBBBBB''" and selectedExisting = None
      and evs = "[Register 0 1 2 ''BBBBBB'' None exRegForm,
                  Register 3 4 5 ''CCCCCC'' None exRegForm]"]
  note t2 = one_active_episode [where patients = "[exArchived]" and formData = exRegForm
      and toDateString = "\<lambda>_. ''day''" and parseInt = "\<lambda>_. Some 30" and today = 0
      and nowRecord = 1 and nowStep = 2 and rnd = "''BBBBBB''"
      and selectedExisting = "Some exArchived" and evs = "[]"]
  have 1: "handleRegister (\<lambda>_. ''day'') (\<lambda>_. Some 30) 0 1 2 ''BBBBBB'' None exRegForm [exFirst]
     = ([exFirst], None)" using t1 a by blast
  have 2: "activeSession exRegForm [exFirst] = Some exFirst" using t1 a l by auto
  have 3: "snd (handleRegister (\<lambda>_. ''day'') (\<lambda>_. Some 30) 0 1 2 ''BBBBBB'' (Some exArchived)
            exRegForm [exArchived]) = Some (Value ''Q-002'', ''MRN-AAAAAA'')"
    using t2 ex_valid i q by simp
  show ?thesis using 1 2 3 ex_valid t1 by blast
qed

section \<open>The pathway\<close>

lemma appendsStep_iff:
  "appendsStep t old new
     = (\<exists>s. pathway new = pathway old @ [s] \<and> step_status s = status new \<and> step_timestamp s = t)"
  unfolding appendsStep_def
  by (metis append_butlast_last_id butlast_snoc last_snoc snoc_eq_iff_butlast)

lemma updatePatient_effect:
  assumes "consistent ps" and "sp \<in> set ps" and "k < length ps"
  shows "updatePatient (ident sp) f ps ! k = (if ps ! k = sp then f sp else ps ! k)"
proof -
  have d: "distinct (map ident ps)" using assms(1) by (simp add: consistent_def)
  have "(ident (ps ! k) = ident sp) = (ps ! k = sp)"
    using distinct_ident_eq [OF d _ assms(2), of "ps ! k"] assms(3) by auto
  then show ?thesis using assms(3) by (simp add: nth_updatePatient)
qed




















lemmas lifecycle_simps =
  step_def handleRegister_def isFormValid_def activeSession_def
  findFirst_def trim_def isWhiteSpace_def addPatient_def newEntry_def Let_def exRegForm_def
  first_ticket second_ticket handleQueueSearch_def ticketMatches_def toUpperCase_def
  upperChar_def readProp_def digitsOnly_def isDigit_def parseDigits_def digitValue_def
  finalizePatient_def finalPatient_def handleInputChange_def setField_def
  triageStatus_def spreadPatient_def spreadProp_def
  finalizeDischarge_def selectedPatient_def physicianQueue_def sortBy_def
  updatePatient_def exArchived_def exFirst_def mkPatient_def
  exRegister_def exIntake_def exDischarge_def exReturn_def

lemma registered_eval:
  "length (run (\<lambda>_. ''day'') (\<lambda>_. Some 30) [exRegister]) = 1
   \<and> status (run (\<lambda>_. ''day'') (\<lambda>_. Some 30) [exRegister] ! 0) = REGISTERED
   \<and> status (step (\<lambda>_. ''day'') (\<lambda>_. Some 30) exIntake (run (\<lambda>_. ''day'') (\<lambda>_. Some 30) [exRegister]) ! 0) = PHYSICIAN_QUEUE"
  unfolding run_def by (simp add: lifecycle_simps)






section \<open>The physician queue\<close>

lemma physicianQueue_sorted:
  assumes "\<forall>p\<in>set patients. status p = PHYSICIAN_QUEUE \<longrightarrow> twoTier p"
  shows "sorted_wrt physicianBefore (physicianQueue patients)"
proof -
  have "\<forall>p\<in>set (filter (\<lambda>p. status p = PHYSICIAN_QUEUE) patients). twoTier p"
    using assms by simp
  then show ?thesis
    unfolding physicianQueue_def
    by (rule sorted_wrt_sortBy [where P = twoTier, rotated 3])
       (auto intro: physicianBefore_trans physicianCompare_le physicianCompare_gt)
qed

lemma queueRun_eval:
  "map ident (physicianQueue (run (\<lambda>_. ''day'') (\<lambda>_. Some 30) exQueueRun))
     = [''MRN-BBBBBB'', ''MRN-AAAAAA'']
   \<and> map triageLevel (physicianQueue (run (\<lambda>_. ''day'') (\<lambda>_. Some 30) exQueueRun))
     = [Some ORANGE, Some GREEN]
   \<and> map timestamp (physicianQueue (run (\<lambda>_. ''day'') (\<lambda>_. Some 30) exQueueRun)) = [9, 7]"
  unfolding exQueueRun_def run_def
  by (simp add: lifecycle_simps exRegFormB_def physicianCompare_def isElderly_def)

text \<open>
  Claim C1. For every collection of patients the physician queue holds exactly the
  patients of status \<open>PHYSICIAN_QUEUE\<close> (as a multiset). In every collection that the
  application reaches, every patient of the queue has the level ORANGE or GREEN, and
  any two patients of the queue stand in the order \<open>physicianBefore\<close>: ORANGE before
  GREEN; among GREEN patients those aged 75 or more first, then at equal elderliness the
  pregnant ones first, then ascending time stamps; among ORANGE patients ascending time
  stamps only, whatever the age and the pregnancy flag. The queue is in that order as
  well for any collection, reached or not, whose patients of that status have the level
  ORANGE or GREEN.
\<close>

theorem physicianQueue_order:
  "mset (physicianQueue patients)
     = mset (filter (\<lambda>p. status p = PHYSICIAN_QUEUE) patients)
   \<and> ((\<forall>p\<in>set patients. status p = PHYSICIAN_QUEUE \<longrightarrow> twoTier p) \<longrightarrow>
        sorted_wrt physicianBefore (physicianQueue patients))
   \<and> sorted_wrt physicianBefore (physicianQueue (run toDateString parseInt evs))
   \<and> (\<forall>p\<in>set (physicianQueue (run toDateString parseInt evs)). twoTier p)"
proof -
  have 1: "mset (physicianQueue patients)
             = mset (filter (\<lambda>p. status p = PHYSICIAN_QUEUE) patients)"
    by (simp add: physicianQueue_def mset_sortBy)
  have 2: "\<forall>p\<in>set (run toDateString parseInt evs). status p = PHYSICIAN_QUEUE \<longrightarrow> twoTier p"
    using consistent_run [of toDateString parseInt evs]
    by (simp add: consistent_def list_all_iff)
  then have 3: "sorted_wrt physicianBefore (physicianQueue (run toDateString parseInt evs))"
    by (rule physicianQueue_sorted)
  have 4: "\<forall>p\<in>set (physicianQueue (run toDateString parseInt evs)). twoTier p"
    using 2 by (simp add: physicianQueue_def set_sortBy)
  show ?thesis using 1 3 4 physicianQueue_sorted [of patients] by blast
qed

theorem physicianQueue_order_witness:
  "physicianQueue [exC, exB, exA] = [exA, exB, exC]
   \<and> mset (physicianQueue [exC, exB, exA])
       = mset (filter (\<lambda>p. status p = PHYSICIAN_QUEUE) [exC, exB, exA])
   \<and> sorted_wrt physicianBefore (physicianQueue [exC, exB, exA])
   \<and> map ident (physicianQueue (run (\<lambda>_. ''day'') (\<lambda>_. Some 30) exQueueRun))
       = [''MRN-BBBBBB'', ''MRN-AAAAAA'']
   \<and> map triageLevel (physicianQueue (run (\<lambda>_. ''day'') (\<lambda>_. Some 30) exQueueRun))
       = [Some ORANGE, Some GREEN]
   \<and> map timestamp (physicianQueue (run (\<lambda>_. ''day'') (\<lambda>_. Some 30) exQueueRun)) = [9, 7]
   \<and> sorted_wrt physicianBefore (physicianQueue (run (\<lambda>_. ''day'') (\<lambda>_. Some 30) exQueueRun))
   \<and> list_all twoTier (physicianQueue (run (\<lambda>_. ''day'') (\<lambda>_. Some 30) exQueueRun))"
proof -
  have "\<forall>p\<in>set [exC, exB, exA]. status p = PHYSICIAN_QUEUE \<longrightarrow> twoTier p"
    by (simp add: twoTier_def ex_defs)
  with physicianQueue_order [of "[exC, exB, exA]" "\<lambda>_. ''day''" "\<lambda>_. Some 30" exQueueRun]
  have "mset (physicianQueue [exC, exB, exA])
          = mset (filter (\<lambda>p. status p = PHYSICIAN_QUEUE) [exC, exB, exA])
        \<and> sorted_wrt physicianBefore (physicianQueue [exC, exB, exA])
        \<and> sorted_wrt physicianBefore
            (physicianQueue (run (\<lambda>_. ''day'') (\<lambda>_. Some 30) exQueueRun))
        \<and> list_all twoTier (physicianQueue (run (\<lambda>_. ''day'') (\<lambda>_. Some 30) exQueueRun))"
    by (simp add: list_all_iff)
  moreover have "physicianQueue [exC, exB, exA] = [exA, exB, exC]"
    by (simp add: physicianQueue_def sortBy_def physicianCompare_def isElderly_def ex_defs)
  ultimately show ?thesis using queueRun_eval by blast
qed

section \<open>Leaving the status REGISTERED\<close>

text \<open>
  The only event that takes a record out of \<open>REGISTERED\<close> is the triage of the nurse:
  a registration writes \<open>REGISTERED\<close>, and the physician and the emergency doctor select
  from their queues only.
\<close>

lemma intake_result:
  assumes "consistent ps" and "handleQueueSearch queueInput ps = INTAKE f"
  shows "\<exists>i<length ps.
           finalizePatient a b rnd (fold handleInputChange cs f) ai ps
             = ps[i := spreadPatient (ps ! i) (finalPatient a b rnd (fold handleInputChange cs f) ai)]"
proof -
  from handleQueueSearch_INTAKE [OF assms(2)]
  obtain found where fo: "found \<in> set ps" "f_id f = Some (ident found)"
    "f_nationalId f = nationalId found" by blast
  let ?form = "fold handleInputChange cs f"
  let ?fp = "finalPatient a b rnd ?form ai"
  have ne: "ident found \<noteq> []" "nationalId found \<noteq> []"
    using assms(1) fo(1) by (auto simp: consistent_def list_all_iff)
  have k: "f_id ?form = Some (ident found)" "f_nationalId ?form \<noteq> []"
    using fo ne by (simp_all add: fold_handleInputChange_keeps)
  note fp = finalPatient_fields [OF k(1) ne(1) k(2), of a b rnd ai]
  obtain i where i: "findIndex (\<lambda>p. ident p = ident ?fp) ps = Some i" "i < length ps"
    using findIndex_ident [of ps found] assms(1) fo(1) fp(1) by (auto simp: consistent_def)
  then show ?thesis by (auto simp: finalizePatient_def addPatient_def)
qed

lemma finalPatient_route:
  "triageLevel (finalPatient a b rnd formData ai) \<noteq> None
   \<and> (status (finalPatient a b rnd formData ai) = ER_QUEUE)
       = (triageLevel (finalPatient a b rnd formData ai) = Some RED)
   \<and> (status (finalPatient a b rnd formData ai) = PHYSICIAN_QUEUE)
       = (triageLevel (finalPatient a b rnd formData ai) \<noteq> Some RED)"
  by (auto simp: finalPatient_def triageStatus_def Let_def split: option.splits)

lemma register_status:
  assumes "k < length ps" and "status (ps ! k) = REGISTERED"
  shows "status (fst (handleRegister td pi a b c rnd sel formData ps) ! k) = REGISTERED"
proof (cases "isFormValid formData ps")
  case False
  then show ?thesis using assms by (simp add: handleRegister_def)
next
  case True
  let ?e = "newEntry td pi a b c rnd sel formData ps"
  have "status (addPatient ?e ps ! k) = REGISTERED"
  proof (cases "findIndex (\<lambda>p. ident p = ident ?e) ps")
    case None
    then show ?thesis using assms by (simp add: addPatient_def nth_append)
  next
    case (Some i)
    then show ?thesis using assms
      by (cases "k = i") (simp_all add: addPatient_def spreadPatient_fields newEntry_fields)
  qed
  then show ?thesis using True by (simp add: handleRegister_def Let_def)
qed

lemma update_keeps_registered:
  assumes "consistent ps" and "sp \<in> set ps" and "status sp \<noteq> REGISTERED"
    and "k < length ps" and "status (ps ! k) = REGISTERED"
  shows "updatePatient (ident sp) f ps ! k = ps ! k"
  using updatePatient_effect [OF assms(1,2,4), of f] assms(3,5) by auto

lemma leaving_registered:
  assumes "consistent ps" and "k < length ps" and "status (ps ! k) = REGISTERED"
    and "status (step td pi ev ps ! k) \<noteq> REGISTERED"
  shows "triageLevel (step td pi ev ps ! k) \<noteq> None
       \<and> (status (step td pi ev ps ! k) = ER_QUEUE)
           = (triageLevel (step td pi ev ps ! k) = Some RED)
       \<and> (status (step td pi ev ps ! k) = PHYSICIAN_QUEUE)
           = (triageLevel (step td pi ev ps ! k) \<noteq> Some RED)"
proof (cases ev)
  case (Register a b c rnd sel formData)
  then show ?thesis using register_status [OF assms(2,3)] assms(4) by (simp add: step_def)
next
  case (Intake queueInput cs ai a b rnd)
  show ?thesis
  proof (cases "handleQueueSearch queueInput ps")
    case (INTAKE f)
    from intake_result [OF assms(1) INTAKE, of a b rnd cs ai]
    obtain i where i: "i < length ps"
      and r: "step td pi ev ps
               = ps[i := spreadPatient (ps ! i) (finalPatient a b rnd (fold handleInputChange cs f) ai)]"
      using Intake INTAKE by (auto simp: step_def)
    show ?thesis
    proof (cases "k = i")
      case True
      then show ?thesis
        using r i finalPatient_route [of a b rnd "fold handleInputChange cs f" ai]
        by (simp add: spreadPatient_fields)
    next
      case False
      then show ?thesis using r assms(3,4) by simp
    qed
  qed (use assms(3,4) Intake in \<open>simp_all add: step_def\<close>)
next
  case (TransferToER now sel nts)
  show ?thesis
  proof (cases "selectedPatient (physicianQueue ps) sel")
    case None
    then show ?thesis using assms(3,4) TransferToER by (simp add: step_def handleTransferToER_def)
  next
    case (Some sp)
    from selected_physician [OF Some] have sp: "sp \<in> set ps" "status sp \<noteq> REGISTERED" by auto
    show ?thesis
      using assms(3,4) TransferToER Some update_keeps_registered [OF assms(1) sp assms(2,3)]
      by (simp add: step_def handleTransferToER_def Let_def split: if_splits)
  qed
next
  case (Admit now sel nts)
  show ?thesis
  proof (cases "selectedPatient (physicianQueue ps) sel")
    case None
    then show ?thesis using assms(3,4) Admit by (simp add: step_def handleAdmit_def)
  next
    case (Some sp)
    from selected_physician [OF Some] have sp: "sp \<in> set ps" "status sp \<noteq> REGISTERED" by auto
    show ?thesis
      using assms(3,4) Admit Some update_keeps_registered [OF assms(1) sp assms(2,3)]
      by (simp add: step_def handleAdmit_def Let_def)
  qed
next
  case (Discharge now sel nts days needs)
  show ?thesis
  proof (cases "selectedPatient (physicianQueue ps) sel")
    case None
    then show ?thesis using assms(3,4) Discharge by (simp add: step_def finalizeDischarge_def)
  next
    case (Some sp)
    from selected_physician [OF Some] have sp: "sp \<in> set ps" "status sp \<noteq> REGISTERED" by auto
    show ?thesis
      using assms(3,4) Discharge Some update_keeps_registered [OF assms(1) sp assms(2,3)]
      by (simp add: step_def finalizeDischarge_def Let_def)
  qed
next
  case (Disposition a b sel nts st)
  show ?thesis
  proof (cases "selectedPatient (erQueue ps) sel")
    case None
    then show ?thesis using assms(3,4) Disposition by (simp add: step_def handleDisposition_def)
  next
    case (Some sp)
    from selected_er [OF Some] have sp: "sp \<in> set ps" "status sp \<noteq> REGISTERED" by auto
    show ?thesis
      using assms(3,4) Disposition Some update_keeps_registered [OF assms(1) sp assms(2,3)]
      by (simp add: step_def handleDisposition_def Let_def split: if_splits)
  qed
qed

text \<open>
  Claim C6. For every intake form and every classifier result, the patient that
  \<^verbatim>\<open>finalizePatient\<close> moves out of \<open>REGISTERED\<close> has a level that is not null (the
  level of the classifier, and GREEN where the classifier gave none), its status is
  \<open>ER_QUEUE\<close> exactly when that level is RED and \<open>PHYSICIAN_QUEUE\<close> exactly when it
  is not, the status is the same whatever the form, the clock and the random text are
  (nothing but the classifier result selects the queue), and the collection holds a
  record of that identifier with that status and level afterwards. In every collection
  that the application reaches, each record that has left \<open>REGISTERED\<close> has a level,
  and whenever an event of any kind takes a record from \<open>REGISTERED\<close> to another status,
  the record has a level afterwards and is in \<open>ER_QUEUE\<close> exactly when the level is RED
  and in \<open>PHYSICIAN_QUEUE\<close> exactly when it is not.
\<close>

theorem finalizePatient_target:
  fixes formData :: IntakeForm and aiTriage :: "AITriage option" and rnd :: string
    and nowStep nowRecord :: int
  defines "fp \<equiv> finalPatient nowStep nowRecord rnd formData aiTriage"
  shows "triageLevel fp \<noteq> None
       \<and> triageLevel fp = Some (case (case aiTriage of None \<Rightarrow> None | Some t \<Rightarrow> level t) of
                                  None \<Rightarrow> GREEN | Some l \<Rightarrow> l)
       \<and> (status fp = ER_QUEUE) = (triageLevel fp = Some RED)
       \<and> (status fp = PHYSICIAN_QUEUE) = (triageLevel fp \<noteq> Some RED)
       \<and> status fp = status (finalPatient nowStep' nowRecord' rnd' formData' aiTriage)
       \<and> (\<exists>q\<in>set (finalizePatient nowStep nowRecord rnd formData aiTriage patients).
             ident q = ident fp \<and> status q = status fp \<and> triageLevel q = triageLevel fp)
       \<and> list_all leveled (run toDateString parseInt evs)
       \<and> (k < length (run toDateString parseInt evs)
            \<and> status (run toDateString parseInt evs ! k) = REGISTERED
            \<and> status (step toDateString parseInt ev (run toDateString parseInt evs) ! k)
                \<noteq> REGISTERED \<longrightarrow>
          triageLevel (step toDateString parseInt ev (run toDateString parseInt evs) ! k) \<noteq> None
          \<and> (status (step toDateString parseInt ev (run toDateString parseInt evs) ! k) = ER_QUEUE)
              = (triageLevel (step toDateString parseInt ev (run toDateString parseInt evs) ! k)
                   = Some RED)
          \<and> (status (step toDateString parseInt ev (run toDateString parseInt evs) ! k)
                = PHYSICIAN_QUEUE)
              = (triageLevel (step toDateString parseInt ev (run toDateString parseInt evs) ! k)
                   \<noteq> Some RED))"
proof -
  have "list_all leveled (run toDateString parseInt evs)"
    using consistent_run [of toDateString parseInt evs] by (simp add: consistent_def)
  moreover
  have "\<exists>q\<in>set (finalizePatient nowStep nowRecord rnd formData aiTriage patients).
             ident q = ident fp \<and> status q = status fp \<and> triageLevel q = triageLevel fp"
    unfolding finalizePatient_def fp_def using addPatient_holds [of _ patients] by blast
  moreover have "triageLevel fp \<noteq> None
       \<and> triageLevel fp = Some (case (case aiTriage of None \<Rightarrow> None | Some t \<Rightarrow> level t) of
                                  None \<Rightarrow> GREEN | Some l \<Rightarrow> l)
       \<and> (status fp = ER_QUEUE) = (triageLevel fp = Some RED)
       \<and> (status fp = PHYSICIAN_QUEUE) = (triageLevel fp \<noteq> Some RED)
       \<and> status fp = status (finalPatient nowStep' nowRecord' rnd' formData' aiTriage)"
    by (auto simp: fp_def finalPatient_def triageStatus_def Let_def
             split: option.splits TriageLevel.splits)
  moreover
  have "k < length (run toDateString parseInt evs)
            \<and> status (run toDateString parseInt evs ! k) = REGISTERED
            \<and> status (step toDateString parseInt ev (run toDateString parseInt evs) ! k)
                \<noteq> REGISTERED \<longrightarrow>
          triageLevel (step toDateString parseInt ev (run toDateString parseInt evs) ! k) \<noteq> None
          \<and> (status (step toDateString parseInt ev (run toDateString parseInt evs) ! k) = ER_QUEUE)
              = (triageLevel (step toDateString parseInt ev (run toDateString parseInt evs) ! k)
                   = Some RED)
          \<and> (status (step toDateString parseInt ev (run toDateString parseInt evs) ! k)
                = PHYSICIAN_QUEUE)
              = (triageLevel (step toDateString parseInt ev (run toDateString parseInt evs) ! k)
                   \<noteq> Some RED)"
    using leaving_registered [OF consistent_run, of k toDateString parseInt evs
        toDateString parseInt ev]
    by blast
  ultimately show ?thesis by blast
qed

theorem finalizePatient_target_witness:
  "status (run (\<lambda>_. ''day'') (\<lambda>_. Some 30) [exRegister] ! 0) = REGISTERED
   \<and> status (step (\<lambda>_. ''day'') (\<lambda>_. Some 30) exIntake (run (\<lambda>_. ''day'') (\<lambda>_. Some 30) [exRegister]) ! 0) = PHYSICIAN_QUEUE
   \<and> triageLevel (step (\<lambda>_. ''day'') (\<lambda>_. Some 30) exIntake (run (\<lambda>_. ''day'') (\<lambda>_. Some 30) [exRegister]) ! 0) \<noteq> None
   \<and> triageLevel (step (\<lambda>_. ''day'') (\<lambda>_. Some 30) exIntake (run (\<lambda>_. ''day'') (\<lambda>_. Some 30) [exRegister]) ! 0) \<noteq> Some RED"
  using finalizePatient_target [where k = 0 and ev = exIntake and evs = "[exRegister]"
      and toDateString = "\<lambda>_. ''day''" and parseInt = "\<lambda>_. Some 30"]
    registered_eval
  by simp

section \<open>Lookup by ticket\<close>

lemma upperChar_digit_id:
  assumes "isDigit c"
  shows "upperChar c = c"
proof -
  from assms have "c = CHR ''0'' \<or> c = CHR ''1'' \<or> c = CHR ''2'' \<or> c = CHR ''3''
      \<or> c = CHR ''4'' \<or> c = CHR ''5'' \<or> c = CHR ''6'' \<or> c = CHR ''7''
      \<or> c = CHR ''8'' \<or> c = CHR ''9''"
    by (simp add: isDigit_def)
  then show ?thesis by (elim disjE) (simp_all add: upperChar_def)
qed

lemma upperChar_cases:
  "upperChar c = c \<or> upperChar c \<in> set ''ABCDEFGHIJKLMNOPQRSTUVWXYZ''"
proof (cases "map_of (zip ''abcdefghijklmnopqrstuvwxyz'' ''ABCDEFGHIJKLMNOPQRSTUVWXYZ'') c")
  case None
  then show ?thesis by (simp add: upperChar_def)
next
  case (Some u)
  then have "u \<in> set ''ABCDEFGHIJKLMNOPQRSTUVWXYZ''"
    by (meson map_of_SomeD set_zip_rightD)
  then show ?thesis using Some by (simp add: upperChar_def)
qed

lemma upper_not_digit: "u \<in> set ''ABCDEFGHIJKLMNOPQRSTUVWXYZ'' \<Longrightarrow> \<not> isDigit u"
  unfolding isDigit_def by auto

lemma upperChar_digit: "isDigit (upperChar c) = isDigit c"
  using upperChar_cases [of c] upperChar_digit_id [of c] upper_not_digit [of "upperChar c"]
  by auto

lemma digitsOnly_toUpperCase: "digitsOnly (toUpperCase t) = digitsOnly t"
  unfolding digitsOnly_def toUpperCase_def
  by (induction t) (auto simp: upperChar_digit upperChar_digit_id)

lemma findFirst_append:
  "\<forall>q\<in>set xs. \<not> P q \<Longrightarrow> P p \<Longrightarrow> findFirst P (xs @ p # ys) = Some p"
  unfolding findFirst_def by (induction xs) auto

lemma noTicketNumber_no_match:
  assumes "noTicketNumber n q" and "digitsOnly input \<noteq> []"
    and "parseDigits (digitsOnly input) = n"
  shows "\<not> ticketMatches input q"
proof (cases "readProp (queueNumber q)")
  case None
  then show ?thesis using assms(2)
    by (auto simp: ticketMatches_def Let_def digitsOnly_def)
next
  case (Some t)
  then have t: "digitsOnly t = [] \<or> parseDigits (digitsOnly t) \<noteq> n"
    using assms(1) by (simp add: noTicketNumber_def)
  show ?thesis
  proof
    assume m: "ticketMatches input q"
    show False
    proof (cases "toUpperCase t = input")
      case True
      then have "digitsOnly t = digitsOnly input"
        using digitsOnly_toUpperCase [of t] by simp
      then show False using t assms(2,3) by simp
    next
      case False
      then have "digitsOnly t \<noteq> [] \<and> parseDigits (digitsOnly t) = parseDigits (digitsOnly input)"
        using m Some by (simp add: ticketMatches_def Let_def digitsOnly_toUpperCase split: if_splits)
      then show False using t assms(3) by simp
    qed
  qed
qed

lemma handleQueueSearch_found:
  assumes "findFirst (ticketMatches (toUpperCase (trim queueInput))) patients = Some p"
    and "toUpperCase (trim queueInput) \<noteq> []"
  shows "(status p = REGISTERED \<longrightarrow>
           (\<exists>f. handleQueueSearch queueInput patients = INTAKE f
                \<and> f_id f = Some (ident p) \<and> f_name f = name p \<and> f_pathway f = pathway p))
       \<and> (status p \<noteq> REGISTERED \<longrightarrow>
           (\<exists>m. handleQueueSearch queueInput patients
                  = ALREADY_PROCESSED m (name p) (status p)))"
  using assms by (simp add: handleQueueSearch_def Let_def)

lemma filter_dropWhile_other:
  "(\<And>c. W c \<Longrightarrow> \<not> P c) \<Longrightarrow> filter P (dropWhile W s) = filter P s"
  by (induction s) auto

lemma digitsOnly_trim: "digitsOnly (trim s) = digitsOnly s"
proof -
  have w: "\<And>c. isWhiteSpace c \<Longrightarrow> \<not> isDigit c"
    by (auto simp: isWhiteSpace_def isDigit_def)
  show ?thesis
    unfolding digitsOnly_def trim_def
    by (simp add: rev_filter [symmetric] filter_dropWhile_other [of isWhiteSpace isDigit, OF w])
qed

text \<open>
  The rule of the lookup. The query is trimmed and put in upper case. A record whose
  ticket has a digit matches the query when the two are equal up to the case of the
  letters, or when the digits of the query, whatever stands around them, denote the
  number that the digits of the ticket denote. The lookup answers for one record, the
  first that matches: when no earlier record holds a ticket of that number, it is the
  record of the ticket.
\<close>

lemma handleQueueSearch_first_holder:
  assumes "queueNumber p = Value t" and "digitsOnly t \<noteq> []"
    and "\<forall>q\<in>set before. noTicketNumber (parseDigits (digitsOnly t)) q"
    and "toUpperCase (trim queueInput) = toUpperCase t
         \<or> (digitsOnly queueInput \<noteq> []
            \<and> parseDigits (digitsOnly queueInput) = parseDigits (digitsOnly t))"
  shows "(status p = REGISTERED \<longrightarrow>
           (\<exists>f. handleQueueSearch queueInput (before @ p # rest) = INTAKE f
                \<and> f_id f = Some (ident p) \<and> f_name f = name p \<and> f_pathway f = pathway p))
       \<and> (status p \<noteq> REGISTERED \<longrightarrow>
           (\<exists>m. handleQueueSearch queueInput (before @ p # rest)
                  = ALREADY_PROCESSED m (name p) (status p)))"
proof -
  let ?input = "toUpperCase (trim queueInput)"
  have di: "digitsOnly ?input = digitsOnly queueInput"
    by (simp add: digitsOnly_toUpperCase digitsOnly_trim)
  have d: "digitsOnly ?input \<noteq> []
           \<and> parseDigits (digitsOnly ?input) = parseDigits (digitsOnly t)"
  proof (cases "?input = toUpperCase t")
    case True
    then have "digitsOnly ?input = digitsOnly t" by (simp add: digitsOnly_toUpperCase)
    then show ?thesis using assms(2) by simp
  next
    case False
    then show ?thesis using assms(4) di by simp
  qed
  have "\<forall>q\<in>set before. \<not> ticketMatches ?input q"
    using assms(3) d noTicketNumber_no_match by blast
  moreover have "ticketMatches ?input p"
    using assms(1,2) d
    by (simp add: ticketMatches_def readProp_def Let_def digitsOnly_toUpperCase)
  ultimately have "findFirst (ticketMatches ?input) (before @ p # rest) = Some p"
    by (rule findFirst_append)
  moreover have "?input \<noteq> []" using d by (auto simp: digitsOnly_def)
  ultimately show ?thesis by (rule handleQueueSearch_found)
qed

text \<open>
  The test of the specification: a patient holds the ticket Q-007 and no earlier record
  holds a ticket of the number 7. Each of the queries Q-007, q-007 and 7 finds that
  patient; the intake starts when it is \<open>REGISTERED\<close>, and otherwise the lookup reports
  the already-processed condition with the name and the current status.
\<close>

lemma handleQueueSearch_Q007:
  assumes "queueNumber p = Value ''Q-007''"
    and "\<forall>q\<in>set before. noTicketNumber 7 q"
    and "queueInput = ''Q-007'' \<or> queueInput = ''q-007'' \<or> queueInput = ''7''"
  shows "(status p = REGISTERED \<longrightarrow>
           (\<exists>f. handleQueueSearch queueInput (before @ p # rest) = INTAKE f
                \<and> f_id f = Some (ident p) \<and> f_name f = name p \<and> f_pathway f = pathway p))
       \<and> (status p \<noteq> REGISTERED \<longrightarrow>
           (\<exists>m. handleQueueSearch queueInput (before @ p # rest)
                  = ALREADY_PROCESSED m (name p) (status p)))"
proof -
  have d: "digitsOnly ''Q-007'' \<noteq> []" "parseDigits (digitsOnly ''Q-007'') = 7"
    by (simp_all add: digitsOnly_def isDigit_def parseDigits_def digitValue_def)
  have "toUpperCase (trim queueInput) = toUpperCase ''Q-007''
         \<or> (digitsOnly queueInput \<noteq> []
            \<and> parseDigits (digitsOnly queueInput) = parseDigits (digitsOnly ''Q-007''))"
    using assms(3)
    by (elim disjE)
       (simp_all add: toUpperCase_def trim_def isWhiteSpace_def upperChar_def digitsOnly_def
          isDigit_def parseDigits_def digitValue_def)
  then show ?thesis
    using handleQueueSearch_first_holder [OF assms(1) d(1), of before queueInput rest]
      assms(2) d(2)
    by simp
qed

lemma collision_eval:
  "map ident (run (\<lambda>_. ''day'') (\<lambda>_. Some 30) exCollision) = [''MRN-AAAAAA'', ''MRN-CCCCCC'']
   \<and> map name (run (\<lambda>_. ''day'') (\<lambda>_. Some 30) exCollision) = [''Ada'', ''Bea'']
   \<and> map queueNumber (run (\<lambda>_. ''day'') (\<lambda>_. Some 30) exCollision)
       = [Value ''Q-002'', Value ''Q-002'']
   \<and> map status (run (\<lambda>_. ''day'') (\<lambda>_. Some 30) exCollision) = [REGISTERED, REGISTERED]"
  unfolding exCollision_def exLifecycle_def run_def
  by (simp add: lifecycle_simps exRegFormB_def)

lemma collision_queries:
  "(case handleQueueSearch ''Q-002'' (run (\<lambda>_. ''day'') (\<lambda>_. Some 30) exCollision) of
      INTAKE f \<Rightarrow> f_id f | _ \<Rightarrow> None) = Some ''MRN-AAAAAA''
   \<and> (case handleQueueSearch ''q-002'' (run (\<lambda>_. ''day'') (\<lambda>_. Some 30) exCollision) of
      INTAKE f \<Rightarrow> f_id f | _ \<Rightarrow> None) = Some ''MRN-AAAAAA''
   \<and> (case handleQueueSearch ''2'' (run (\<lambda>_. ''day'') (\<lambda>_. Some 30) exCollision) of
      INTAKE f \<Rightarrow> f_id f | _ \<Rightarrow> None) = Some ''MRN-AAAAAA''"
  unfolding exCollision_def exLifecycle_def run_def
  by (simp add: lifecycle_simps exRegFormB_def)

text \<open>
  Claim C9. The lookup normalises the query as the claim says, and where one record
  holds the number of a ticket it finds that record (the lemmas above). The claim
  fails in the application all the same, because the registration issues one ticket to
  two patients. It numbers a ticket by counting the records of the day and adding one;
  a patient that returns on the day of the discharge is written over the archived
  record, so the count does not grow and the next patient is given the same number.
  After the events \<open>exCollision\<close>, all on one day, Ada and Bea are both registered and
  both hold the ticket Q-002. Each of the queries Q-002, q-002 and 2 starts the intake
  of Ada, the earlier record; Bea holds the ticket and is found by none of them.
\<close>

theorem handleQueueSearch_duplicate_ticket:
  "map ident (run (\<lambda>_. ''day'') (\<lambda>_. Some 30) exCollision) = [''MRN-AAAAAA'', ''MRN-CCCCCC'']
   \<and> map name (run (\<lambda>_. ''day'') (\<lambda>_. Some 30) exCollision) = [''Ada'', ''Bea'']
   \<and> map queueNumber (run (\<lambda>_. ''day'') (\<lambda>_. Some 30) exCollision)
       = [Value ''Q-002'', Value ''Q-002'']
   \<and> map status (run (\<lambda>_. ''day'') (\<lambda>_. Some 30) exCollision) = [REGISTERED, REGISTERED]
   \<and> (case handleQueueSearch ''Q-002'' (run (\<lambda>_. ''day'') (\<lambda>_. Some 30) exCollision) of
        INTAKE f \<Rightarrow> f_id f | _ \<Rightarrow> None) = Some ''MRN-AAAAAA''
   \<and> (case handleQueueSearch ''q-002'' (run (\<lambda>_. ''day'') (\<lambda>_. Some 30) exCollision) of
        INTAKE f \<Rightarrow> f_id f | _ \<Rightarrow> None) = Some ''MRN-AAAAAA''
   \<and> (case handleQueueSearch ''2'' (run (\<lambda>_. ''day'') (\<lambda>_. Some 30) exCollision) of
        INTAKE f \<Rightarrow> f_id f | _ \<Rightarrow> None) = Some ''MRN-AAAAAA''"
  using collision_eval collision_queries by simp

end
